theory Spec2Isabelle
  imports Main "HOL-Library.Word"
begin

section \<open>Python values\<close>

text \<open>
  The values that \<open>response.json()\<close> hands to the program: \<open>None\<close>, \<open>bool\<close>,
  \<open>int\<close>, \<open>float\<close> (an IEEE double, kept as its 64 bits), \<open>str\<close>, \<open>list\<close>
  and \<open>dict\<close>. A \<open>dict\<close> is an association list in insertion order; a lookup takes
  the first binding of a key. A \<open>char\<close> stands for one character of a Python \<open>str\<close>.
\<close>

datatype json =
    JNull
  | JBool bool
  | JInt int
  | JFloat "64 word"
  | JStr string
  | JArr "json list"
  | JObj "(string \<times> json) list"

text \<open>
  The exceptions the program can meet. \<open>SystemExit\<close> derives from \<open>BaseException\<close>
  only; all others derive from \<open>Exception\<close>.
\<close>

datatype py_exception =
    RequestException
  | HTTPError int
  | JSONDecodeError
  | AttributeError
  | TypeError
  | ValueError
  | OSError
  | UnicodeEncodeError
  | SystemExit int

fun is_Exception :: "py_exception \<Rightarrow> bool" where
  "is_Exception (SystemExit c) = False"
| "is_Exception e = True"

text \<open>Truth value of an object, as \<open>not ids\<close> tests it.\<close>

fun truthy :: "json \<Rightarrow> bool" where
  "truthy JNull = False"
| "truthy (JBool b) = b"
| "truthy (JInt i) = (i \<noteq> 0)"
| "truthy (JFloat f) = (take_bit 63 f \<noteq> 0)"
| "truthy (JStr s) = (s \<noteq> [])"
| "truthy (JArr xs) = (xs \<noteq> [])"
| "truthy (JObj kvs) = (kvs \<noteq> [])"

text \<open>\<open>obj.get(key, default)\<close>: only a \<open>dict\<close> has the method.\<close>

fun py_get :: "json \<Rightarrow> string \<Rightarrow> json \<Rightarrow> py_exception + json" where
  "py_get (JObj kvs) k d = Inr (case map_of kvs k of None \<Rightarrow> d | Some v \<Rightarrow> v)"
| "py_get v k d = Inl AttributeError"

text \<open>
  The items that iterating an object yields: the elements of a list, the characters of
  a \<open>str\<close>, the keys of a \<open>dict\<close> (each once, in the order of their first binding);
  anything else is not iterable.
\<close>

fun py_iter :: "json \<Rightarrow> py_exception + json list" where
  "py_iter (JArr xs) = Inr xs"
| "py_iter (JStr s) = Inr (map (\<lambda>c. JStr [c]) s)"
| "py_iter (JObj kvs) = Inr (map JStr (rev (remdups (rev (map fst kvs)))))"
| "py_iter v = Inl TypeError"

fun the_strs :: "json list \<Rightarrow> py_exception + string list" where
  "the_strs [] = Inr []"
| "the_strs (JStr s # xs) = (case the_strs xs of Inl e \<Rightarrow> Inl e | Inr ss \<Rightarrow> Inr (s # ss))"
| "the_strs (v # xs) = Inl TypeError"

fun intercalate :: "string \<Rightarrow> string list \<Rightarrow> string" where
  "intercalate sep [] = []"
| "intercalate sep [s] = s"
| "intercalate sep (s # t # ss) = s @ sep @ intercalate sep (t # ss)"

text \<open>
  \<open>sep.join(obj)\<close>: \<open>TypeError\<close> unless \<open>obj\<close> is iterable and every item is a
  \<open>str\<close>. The items are returned with the joined text: the loop of \<open>fetch_papers\<close>
  iterates the same object again and so meets exactly these strings.
\<close>

definition str_join :: "string \<Rightarrow> json \<Rightarrow> py_exception + (string \<times> string list)" where
  "str_join sep obj =
     (case py_iter obj of
        Inl e \<Rightarrow> Inl e
      | Inr items \<Rightarrow>
          (case the_strs items of
             Inl e \<Rightarrow> Inl e
           | Inr ss \<Rightarrow> Inr (intercalate sep ss, ss)))"

section \<open>The network\<close>

record request =
  url :: string
  params :: "(string \<times> json) list"

text \<open>
  A response: its status and the value \<open>response.json()\<close> returns (\<open>None\<close> when the
  body is not JSON and \<open>json()\<close> raises).
\<close>

record response =
  status_code :: int
  json_body :: "json option"

text \<open>
  What the program takes as given: the answer to each request (\<open>None\<close> when
  \<open>requests.get\<close> itself raises), whether a path can be opened for writing, which
  characters the encoding of an opened file has (the program passes no \<open>encoding\<close>, so
  it is the locale's), and the text that the builtin \<open>str()\<close> gives for an object.
\<close>

record env =
  http :: "request \<Rightarrow> response option"
  can_open :: "string \<Rightarrow> bool"
  encodable :: "char \<Rightarrow> bool"
  py_str :: "json \<Rightarrow> string"

datatype log_level = DEBUG | INFO | WARNING | ERROR

fun level_no :: "log_level \<Rightarrow> nat" where
  "level_no DEBUG = 10"
| "level_no INFO = 20"
| "level_no WARNING = 30"
| "level_no ERROR = 40"

datatype log_arg = LStr string | LExn py_exception | LNone

type_synonym log_record = "log_level \<times> string \<times> log_arg"

type_synonym paper = "(string \<times> json) list"

text \<open>
  Everything the program changes: the requests sent, the logger's level and the records
  it emitted, the objects printed, and the content of the files.
\<close>

record world =
  sent :: "request list"
  logger_level :: log_level
  log_out :: "log_record list"
  stdout :: "paper list"
  files :: "string \<Rightarrow> string option"

definition requests_get ::
  "env \<Rightarrow> string \<Rightarrow> (string \<times> json) list \<Rightarrow> world \<Rightarrow> (py_exception + response) \<times> world" where
  "requests_get e u ps w =
     (let r = \<lparr>url = u, params = ps\<rparr>;
          w' = w\<lparr>sent := sent w @ [r]\<rparr>
      in (case http e r of None \<Rightarrow> Inl RequestException | Some resp \<Rightarrow> Inr resp, w'))"

definition raise_for_status :: "response \<Rightarrow> py_exception + unit" where
  "raise_for_status resp =
     (if 400 \<le> status_code resp \<and> status_code resp < 600
      then Inl (HTTPError (status_code resp)) else Inr ())"

definition response_json :: "response \<Rightarrow> py_exception + json" where
  "response_json resp = (case json_body resp of None \<Rightarrow> Inl JSONDecodeError | Some j \<Rightarrow> Inr j)"

section \<open>fetch_papers\<close>

definition base_url :: string where
  "base_url = ''https://eutils.ncbi.nlm.nih.gov/entrez/eutils/esearch.fcgi''"

definition details_url :: string where
  "details_url = ''https://eutils.ncbi.nlm.nih.gov/entrez/eutils/esummary.fcgi''"

definition search_params :: "string \<Rightarrow> (string \<times> json) list" where
  "search_params query =
     [(''db'', JStr ''pubmed''), (''term'', JStr query),
      (''retmax'', JInt 10), (''retmode'', JStr ''json'')]"

definition details_params :: "string \<Rightarrow> (string \<times> json) list" where
  "details_params joined =
     [(''db'', JStr ''pubmed''), (''id'', JStr joined), (''retmode'', JStr ''json'')]"

text \<open>One round of the loop body: the summary lookup and the dictionary literal.\<close>

definition paper_of :: "json \<Rightarrow> string \<Rightarrow> py_exception + paper" where
  "paper_of details_data i =
     (case py_get details_data ''result'' (JObj []) of
        Inl e \<Rightarrow> Inl e
      | Inr res \<Rightarrow>
     (case py_get res i (JObj []) of
        Inl e \<Rightarrow> Inl e
      | Inr summary \<Rightarrow>
     (case py_get summary ''title'' (JStr []) of
        Inl e \<Rightarrow> Inl e
      | Inr title \<Rightarrow>
     (case py_get summary ''pubdate'' (JStr []) of
        Inl e \<Rightarrow> Inl e
      | Inr pubdate \<Rightarrow>
          Inr [(''PubmedID'', JStr i),
               (''Title'', title),
               (''Publication Date'', pubdate),
               (''Non-academic Author(s)'', JStr ''Heuristic not implemented''),
               (''Company Affiliation(s)'', JStr ''Heuristic not implemented''),
               (''Corresponding Author Email'', JStr ''Not available'')]))))"

fun papers_loop :: "json \<Rightarrow> string list \<Rightarrow> paper list \<Rightarrow> py_exception + paper list" where
  "papers_loop details_data [] papers = Inr papers"
| "papers_loop details_data (i # ids) papers =
     (case paper_of details_data i of
        Inl e \<Rightarrow> Inl e
      | Inr p \<Rightarrow> papers_loop details_data ids (papers @ [p]))"

definition fetch_papers :: "env \<Rightarrow> string \<Rightarrow> world \<Rightarrow> (py_exception + paper list) \<times> world" where
  "fetch_papers e query w =
     (case requests_get e base_url (search_params query) w of
        (Inl x, w1) \<Rightarrow> (Inl x, w1)
      | (Inr resp, w1) \<Rightarrow>
     (case raise_for_status resp of
        Inl x \<Rightarrow> (Inl x, w1)
      | Inr u \<Rightarrow>
     (case response_json resp of
        Inl x \<Rightarrow> (Inl x, w1)
      | Inr search_data \<Rightarrow>
     (case py_get search_data ''esearchresult'' (JObj []) of
        Inl x \<Rightarrow> (Inl x, w1)
      | Inr sr \<Rightarrow>
     (case py_get sr ''idlist'' (JArr []) of
        Inl x \<Rightarrow> (Inl x, w1)
      | Inr ids \<Rightarrow>
          if \<not> truthy ids then (Inr [], w1)
          else
     (case str_join '','' ids of
        Inl x \<Rightarrow> (Inl x, w1)
      | Inr (joined, id_strs) \<Rightarrow>
     (case requests_get e details_url (details_params joined) w1 of
        (Inl x, w2) \<Rightarrow> (Inl x, w2)
      | (Inr details_response, w2) \<Rightarrow>
     (case raise_for_status details_response of
        Inl x \<Rightarrow> (Inl x, w2)
      | Inr u \<Rightarrow>
     (case response_json details_response of
        Inl x \<Rightarrow> (Inl x, w2)
      | Inr details_data \<Rightarrow> (papers_loop details_data id_strs [], w2))))))))))"

section \<open>Logging and printing\<close>

text \<open>A logger call emits its record when the call's level reaches the logger's level.\<close>

definition logger_log :: "log_level \<Rightarrow> string \<Rightarrow> log_arg \<Rightarrow> world \<Rightarrow> world" where
  "logger_log lvl msg arg w =
     (if level_no (logger_level w) \<le> level_no lvl
      then w\<lparr>log_out := log_out w @ [(lvl, msg, arg)]\<rparr> else w)"

fun print_papers :: "paper list \<Rightarrow> world \<Rightarrow> world" where
  "print_papers [] w = w"
| "print_papers (p # ps) w = print_papers ps (w\<lparr>stdout := stdout w @ [p]\<rparr>)"

section \<open>save_to_csv\<close>

definition fieldnames :: "string list" where
  "fieldnames =
     [''PubmedID'', ''Title'', ''Publication Date'',
      ''Non-academic Author(s)'', ''Company Affiliation(s)'',
      ''Corresponding Author Email'']"

text \<open>
  The writer of the \<open>csv\<close> module in its default dialect (\<open>excel\<close>): delimiter comma,
  quote character \<open>"\<close>, quotes doubled, minimal quoting, line terminator CR LF.
\<close>

definition delimiter :: char where "delimiter = CHR 0x2C"
definition quotechar :: char where "quotechar = CHR 0x22"
definition CR :: char where "CR = CHR 0x0D"
definition LF :: char where "LF = CHR 0x0A"

definition lineterminator :: string where
  "lineterminator = [CR, LF]"

text \<open>The text of a field: a \<open>str\<close> as it is, \<open>None\<close> as nothing, the rest by \<open>str()\<close>.\<close>

fun csv_field_text :: "(json \<Rightarrow> string) \<Rightarrow> json \<Rightarrow> string" where
  "csv_field_text str_of (JStr s) = s"
| "csv_field_text str_of JNull = []"
| "csv_field_text str_of v = str_of v"

definition needs_quote :: "string \<Rightarrow> bool" where
  "needs_quote s =
     list_ex (\<lambda>c. c = delimiter \<or> c = quotechar \<or> c = CR \<or> c = LF) s"

definition double_quotes :: "string \<Rightarrow> string" where
  "double_quotes s = concat (map (\<lambda>c. if c = quotechar then [c, c] else [c]) s)"

definition join_append :: "string \<Rightarrow> string" where
  "join_append s =
     (if needs_quote s then quotechar # double_quotes s @ [quotechar] else s)"

text \<open>A record of one empty field is written as a pair of quotes.\<close>

definition csv_writerow :: "(json \<Rightarrow> string) \<Rightarrow> json list \<Rightarrow> string" where
  "csv_writerow str_of row =
     (let texts = map (csv_field_text str_of) row
      in (if texts = [[]] then [quotechar, quotechar]
          else intercalate [delimiter] (map join_append texts)) @ lineterminator)"

text \<open>
  \<open>DictWriter._dict_to_list\<close>: a key outside the field names raises, a missing field
  is written as the empty string.
\<close>

definition dict_to_list :: "paper \<Rightarrow> py_exception + json list" where
  "dict_to_list rowdict =
     (if list_ex (\<lambda>k. k \<notin> set fieldnames) (map fst rowdict) then Inl ValueError
      else Inr (map (\<lambda>k. case map_of rowdict k of None \<Rightarrow> JStr [] | Some v \<Rightarrow> v)
                  fieldnames))"

definition fwrite :: "string \<Rightarrow> string \<Rightarrow> world \<Rightarrow> world" where
  "fwrite filename s w =
     w\<lparr>files := (files w)
          (filename \<mapsto> (case files w filename of None \<Rightarrow> [] | Some c \<Rightarrow> c) @ s)\<rparr>"

text \<open>
  \<open>csvfile.write(line)\<close>: the text is encoded as a whole when it is written, and a
  character the encoding lacks raises before anything of the line reaches the file.
\<close>

definition file_write ::
  "env \<Rightarrow> string \<Rightarrow> string \<Rightarrow> world \<Rightarrow> (py_exception + unit) \<times> world" where
  "file_write e filename s w =
     (if list_all (encodable e) s then (Inr (), fwrite filename s w)
      else (Inl UnicodeEncodeError, w))"

fun writerows ::
  "env \<Rightarrow> string \<Rightarrow> paper list \<Rightarrow> world \<Rightarrow> (py_exception + unit) \<times> world" where
  "writerows e filename [] w = (Inr (), w)"
| "writerows e filename (p # ps) w =
     (case dict_to_list p of
        Inl x \<Rightarrow> (Inl x, w)
      | Inr row \<Rightarrow>
          (case file_write e filename (csv_writerow (py_str e) row) w of
             (Inl x, w1) \<Rightarrow> (Inl x, w1)
           | (Inr u, w1) \<Rightarrow> writerows e filename ps w1))"

text \<open>
  Opening with mode \<open>w\<close> empties the file; \<open>writeheader\<close> writes the field names as a
  row; the \<open>with\<close> block closes the file on every way out, so what was written stays.
\<close>

definition save_to_csv ::
  "env \<Rightarrow> paper list \<Rightarrow> string \<Rightarrow> world \<Rightarrow> (py_exception + unit) \<times> world" where
  "save_to_csv e papers filename w =
     (if \<not> can_open e filename then (Inl OSError, w)
      else
        let w1 = w\<lparr>files := (files w)(filename \<mapsto> [])\<rparr>
        in case file_write e filename (csv_writerow (py_str e) (map JStr fieldnames)) w1 of
             (Inl x, w2) \<Rightarrow> (Inl x, w2)
           | (Inr u, w2) \<Rightarrow> writerows e filename papers w2)"

section \<open>Reading a CSV text back\<close>

text \<open>
  The reader of the \<open>csv\<close> module in the same dialect, over the text of a file opened
  with \<open>newline=''\<close>. The file yields its lines with their terminators (LF, CR LF or a
  lone CR); the reader feeds every character of a line to \<open>parse_process_char\<close> and
  then the end-of-line mark.
\<close>

datatype parser_state =
    START_RECORD | START_FIELD | IN_FIELD | IN_QUOTED_FIELD
  | QUOTE_IN_QUOTED_FIELD | EAT_CRNL

datatype rchar = Ch char | EOL

record reader =
  pstate :: parser_state
  cur_field :: string
  rec_fields :: "string list"

definition parse_reset :: reader where
  "parse_reset = \<lparr>pstate = START_RECORD, cur_field = [], rec_fields = []\<rparr>"

definition parse_save_field :: "reader \<Rightarrow> reader" where
  "parse_save_field r = r\<lparr>rec_fields := rec_fields r @ [cur_field r], cur_field := []\<rparr>"

text \<open>
  \<open>csv.field_size_limit()\<close> as the module sets it; a character added to a field that
  already has that many is \<open>csv.Error\<close> (\<open>None\<close>).
\<close>

definition field_limit :: nat where
  "field_limit = 131072"

definition parse_add_char :: "char \<Rightarrow> reader \<Rightarrow> reader option" where
  "parse_add_char c r =
     (if field_limit \<le> length (cur_field r) then None
      else Some (r\<lparr>cur_field := cur_field r @ [c]\<rparr>))"

definition add_then :: "char \<Rightarrow> parser_state \<Rightarrow> reader \<Rightarrow> reader option" where
  "add_then c st r =
     (case parse_add_char c r of None \<Rightarrow> None | Some r1 \<Rightarrow> Some (r1\<lparr>pstate := st\<rparr>))"

definition is_newline :: "rchar \<Rightarrow> bool" where
  "is_newline c = (c = Ch LF \<or> c = Ch CR)"

definition after_line :: "rchar \<Rightarrow> parser_state" where
  "after_line c = (if c = EOL then START_RECORD else EAT_CRNL)"

definition start_field :: "reader \<Rightarrow> rchar \<Rightarrow> reader option" where
  "start_field r c =
     (if is_newline c \<or> c = EOL then Some ((parse_save_field r)\<lparr>pstate := after_line c\<rparr>)
      else if c = Ch quotechar then Some (r\<lparr>pstate := IN_QUOTED_FIELD\<rparr>)
      else if c = Ch delimiter then Some ((parse_save_field r)\<lparr>pstate := START_FIELD\<rparr>)
      else (case c of Ch x \<Rightarrow> add_then x IN_FIELD r | EOL \<Rightarrow> Some r))"

text \<open>One step of the reader's automaton; \<open>None\<close> is \<open>csv.Error\<close>.\<close>

fun parse_process_char :: "reader \<Rightarrow> rchar \<Rightarrow> reader option" where
  "parse_process_char r c =
     (case pstate r of
        START_RECORD \<Rightarrow>
          if c = EOL then Some r
          else if is_newline c then Some (r\<lparr>pstate := EAT_CRNL\<rparr>)
          else start_field r c
      | START_FIELD \<Rightarrow> start_field r c
      | IN_FIELD \<Rightarrow>
          if is_newline c \<or> c = EOL then Some ((parse_save_field r)\<lparr>pstate := after_line c\<rparr>)
          else if c = Ch delimiter then Some ((parse_save_field r)\<lparr>pstate := START_FIELD\<rparr>)
          else (case c of Ch x \<Rightarrow> parse_add_char x r | EOL \<Rightarrow> Some r)
      | IN_QUOTED_FIELD \<Rightarrow>
          (case c of
             EOL \<Rightarrow> Some r
           | Ch x \<Rightarrow>
               if x = quotechar then Some (r\<lparr>pstate := QUOTE_IN_QUOTED_FIELD\<rparr>)
               else parse_add_char x r)
      | QUOTE_IN_QUOTED_FIELD \<Rightarrow>
          if c = Ch quotechar then add_then quotechar IN_QUOTED_FIELD r
          else if c = Ch delimiter then Some ((parse_save_field r)\<lparr>pstate := START_FIELD\<rparr>)
          else if is_newline c \<or> c = EOL
            then Some ((parse_save_field r)\<lparr>pstate := after_line c\<rparr>)
          else (case c of Ch x \<Rightarrow> add_then x IN_FIELD r
                        | EOL \<Rightarrow> Some r)
      | EAT_CRNL \<Rightarrow>
          if is_newline c then Some r
          else if c = EOL then Some (r\<lparr>pstate := START_RECORD\<rparr>)
          else None)"

text \<open>
  A line of the file ends after LF, after a CR that no LF follows, and at the end of
  the text.
\<close>

definition ends_line :: "char \<Rightarrow> string \<Rightarrow> bool" where
  "ends_line c rest = (c = LF \<or> (c = CR \<and> (case rest of [] \<Rightarrow> True | d # ds \<Rightarrow> d \<noteq> LF)) \<or> rest = [])"

text \<open>
  The reader's iteration: a record is complete when the automaton is back in
  \<open>START_RECORD\<close> at the end of a line. When the text ends inside a record, the
  pending field is saved and the record returned.
\<close>

fun reader_loop :: "reader \<Rightarrow> string \<Rightarrow> string list list \<Rightarrow> string list list option" where
  "reader_loop r [] recs =
     (if cur_field r \<noteq> [] \<or> pstate r = IN_QUOTED_FIELD
      then Some (recs @ [rec_fields (parse_save_field r)]) else Some recs)"
| "reader_loop r (c # cs) recs =
     (case parse_process_char r (Ch c) of
        None \<Rightarrow> None
      | Some r1 \<Rightarrow>
          if ends_line c cs then
            (case parse_process_char r1 EOL of
               None \<Rightarrow> None
             | Some r2 \<Rightarrow>
                 if pstate r2 = START_RECORD
                 then reader_loop parse_reset cs (recs @ [rec_fields r2])
                 else reader_loop r2 cs recs)
          else reader_loop r1 cs recs)"

definition csv_reader :: "string \<Rightarrow> string list list option" where
  "csv_reader text = reader_loop parse_reset text []"

section \<open>The command line\<close>

record args =
  query :: string
  "file" :: "string option"
  debug :: bool

text \<open>
  \<open>parser.parse_args()\<close> for the three arguments the program declares, and the
  \<open>-h\<close> that \<open>argparse\<close> adds. The model covers the command lines whose every word
  either does not start with \<open>-\<close> or is one of the option strings written out in full;
  on any other command line (abbreviated or clustered options, \<open>--file=x\<close>, \<open>--\<close>) it
  says nothing (\<open>None\<close>). An error ends the process with status 2, \<open>-h\<close> with status 0.
\<close>

definition option_strings :: "string list" where
  "option_strings = [''-h'', ''--help'', ''-f'', ''--file'', ''-d'', ''--debug'']"

definition is_positional :: "string \<Rightarrow> bool" where
  "is_positional t = (case t of [] \<Rightarrow> True | c # cs \<Rightarrow> c \<noteq> CHR ''-'')"

definition in_fragment :: "string \<Rightarrow> bool" where
  "in_fragment t = (is_positional t \<or> t \<in> set option_strings)"

definition is_help :: "string \<Rightarrow> bool" where
  "is_help t = (t = ''-h'' \<or> t = ''--help'')"

definition is_debug :: "string \<Rightarrow> bool" where
  "is_debug t = (t = ''-d'' \<or> t = ''--debug'')"

definition is_file :: "string \<Rightarrow> bool" where
  "is_file t = (t = ''-f'' \<or> t = ''--file'')"

fun parse_loop ::
  "string list \<Rightarrow> string option \<Rightarrow> string option \<Rightarrow> bool \<Rightarrow> bool \<Rightarrow> py_exception + args" where
  "parse_loop [] q f d extras =
     (if extras then Inl (SystemExit 2)
      else case q of
             None \<Rightarrow> Inl (SystemExit 2)
           | Some s \<Rightarrow> Inr \<lparr>query = s, file = f, debug = d\<rparr>)"
| "parse_loop [t] q f d extras =
     (if is_help t then Inl (SystemExit 0)
      else if is_debug t then parse_loop [] q f True extras
      else if is_file t then Inl (SystemExit 2)
      else (case q of
              None \<Rightarrow> parse_loop [] (Some t) f d extras
            | Some s \<Rightarrow> parse_loop [] q f d True))"
| "parse_loop (t # v # ts) q f d extras =
     (if is_help t then Inl (SystemExit 0)
      else if is_debug t then parse_loop (v # ts) q f True extras
      else if is_file t then
        (if is_positional v then parse_loop ts q (Some v) d extras
         else Inl (SystemExit 2))
      else (case q of
              None \<Rightarrow> parse_loop (v # ts) (Some t) f d extras
            | Some s \<Rightarrow> parse_loop (v # ts) q f d True))"

definition parse_args :: "string list \<Rightarrow> (py_exception + args) option" where
  "parse_args argv =
     (if list_all in_fragment argv then Some (parse_loop argv None None False False)
      else None)"

section \<open>main\<close>

text \<open>The body of the \<open>try\<close> block.\<close>

definition main_try :: "env \<Rightarrow> args \<Rightarrow> world \<Rightarrow> (py_exception + unit) \<times> world" where
  "main_try e a w =
     (let w0 = logger_log INFO ''Fetching papers for query: %s'' (LStr (query a)) w
      in case fetch_papers e (query a) w0 of
           (Inl x, w1) \<Rightarrow> (Inl x, w1)
         | (Inr papers, w1) \<Rightarrow>
             if papers = [] then
               (Inr (), logger_log INFO ''No papers found for the given query.'' LNone w1)
             else
               (case file a of
                  None \<Rightarrow> (Inr (), print_papers papers w1)
                | Some f \<Rightarrow>
                    if f = [] then (Inr (), print_papers papers w1)
                    else
                      (case save_to_csv e papers f w1 of
                         (Inl x, w2) \<Rightarrow> (Inl x, w2)
                       | (Inr u, w2) \<Rightarrow>
                           (Inr (), logger_log INFO ''Results saved to %s'' (LStr f) w2))))"

text \<open>
  \<open>main\<close> once the command line is parsed: the debug switch, the \<open>try\<close> block and its
  handler, which takes what derives from \<open>Exception\<close>.
\<close>

definition main_args :: "env \<Rightarrow> args \<Rightarrow> world \<Rightarrow> (py_exception + unit) \<times> world" where
  "main_args e a w =
     (let w0 = (if debug a then w\<lparr>logger_level := DEBUG\<rparr> else w)
      in case main_try e a w0 of
           (Inl x, w1) \<Rightarrow>
             if is_Exception x
             then (Inr (), logger_log ERROR ''An error occurred: %s'' (LExn x) w1)
             else (Inl x, w1)
         | (Inr u, w1) \<Rightarrow> (Inr (), w1))"

definition main :: "env \<Rightarrow> string list \<Rightarrow> world \<Rightarrow> ((py_exception + unit) \<times> world) option" where
  "main e argv w =
     (case parse_args argv of
        None \<Rightarrow> None
      | Some (Inl x) \<Rightarrow> Some (Inl x, w)
      | Some (Inr a) \<Rightarrow> Some (main_args e a w))"

text \<open>
  The exit status of the interpreter: 0 when the script runs to its end, the code of a
  \<open>SystemExit\<close>, 1 for any other exception that nothing caught.
\<close>

fun exit_status :: "py_exception + unit \<Rightarrow> int" where
  "exit_status (Inr u) = 0"
| "exit_status (Inl (SystemExit c)) = c"
| "exit_status (Inl x) = 1"

text \<open>
  The script: \<open>logging.basicConfig(level=logging.INFO)\<close>, then \<open>main()\<close>. The result is
  the exit status and the world the run leaves.
\<close>

definition program :: "env \<Rightarrow> string list \<Rightarrow> world \<Rightarrow> (int \<times> world) option" where
  "program e argv w =
     (case main e argv (w\<lparr>logger_level := INFO\<rparr>) of
        None \<Rightarrow> None
      | Some (r, w') \<Rightarrow> Some (exit_status r, w'))"

section \<open>Notions used in the statements\<close>

text \<open>
  The lookups as the specification words them: the value at a key of a mapping, a default
  standing in for a missing key; the summary object at \<open>result.<id>\<close>, an empty mapping
  standing in for a missing \<open>result\<close> or a missing entry.
\<close>

fun is_dict :: "json \<Rightarrow> bool" where
  "is_dict (JObj kvs) = True"
| "is_dict v = False"

fun lookup :: "json \<Rightarrow> string \<Rightarrow> json option" where
  "lookup (JObj kvs) k = map_of kvs k"
| "lookup v k = None"

definition get_or :: "json \<Rightarrow> string \<Rightarrow> json \<Rightarrow> json" where
  "get_or obj k d = (case lookup obj k of None \<Rightarrow> d | Some v \<Rightarrow> v)"

definition summary_at :: "json \<Rightarrow> string \<Rightarrow> json" where
  "summary_at details_data i = get_or (get_or details_data ''result'' (JObj [])) i (JObj [])"

text \<open>
  Each object the loop calls \<open>get\<close> on for identifier \<open>i\<close> is a mapping.
\<close>

definition entry_ok :: "json \<Rightarrow> string \<Rightarrow> bool" where
  "entry_ok details_data i =
     (is_dict details_data \<and> is_dict (get_or details_data ''result'' (JObj []))
      \<and> is_dict (summary_at details_data i))"

text \<open>
  The record the specification describes for identifier \<open>i\<close>.
\<close>

definition paper_record :: "json \<Rightarrow> string \<Rightarrow> paper" where
  "paper_record details_data i =
     [(''PubmedID'', JStr i),
      (''Title'', get_or (summary_at details_data i) ''title'' (JStr [])),
      (''Publication Date'', get_or (summary_at details_data i) ''pubdate'' (JStr [])),
      (''Non-academic Author(s)'', JStr ''Heuristic not implemented''),
      (''Company Affiliation(s)'', JStr ''Heuristic not implemented''),
      (''Corresponding Author Email'', JStr ''Not available'')]"

text \<open>
  The value at the path \<open>esearchresult.idlist\<close> of the search response, if there is one.
\<close>

definition idlist_of :: "json \<Rightarrow> json option" where
  "idlist_of search_data =
     (case lookup search_data ''esearchresult'' of
        None \<Rightarrow> None
      | Some sr \<Rightarrow> lookup sr ''idlist'')"

text \<open>
  A request is answered when \<open>requests.get\<close> returns a response whose status is not an
  error status (400 to 599) and whose body is JSON.
\<close>

definition is_error_status :: "int \<Rightarrow> bool" where
  "is_error_status s = (400 \<le> s \<and> s < 600)"

definition answered :: "env \<Rightarrow> request \<Rightarrow> json \<Rightarrow> bool" where
  "answered e r body =
     (case http e r of
        None \<Rightarrow> False
      | Some resp \<Rightarrow> \<not> is_error_status (status_code resp) \<and> json_body resp = Some body)"

text \<open>
  The two requests of \<open>fetch_papers\<close>.
\<close>

definition search_request :: "string \<Rightarrow> request" where
  "search_request q = \<lparr>url = base_url, params = search_params q\<rparr>"

definition details_request :: "string list \<Rightarrow> request" where
  "details_request ids = \<lparr>url = details_url, params = details_params (intercalate '','' ids)\<rparr>"

text \<open>
  The example of the specification: the search for "cancer" answered with the identifiers
  111 and 222, and a summary response for them. \<open>world0\<close> is a world in which nothing has
  happened yet.
\<close>

definition example_search :: json where
  "example_search = JObj [(''esearchresult'', JObj [(''idlist'', JArr [JStr ''111'', JStr ''222''])])]"

definition example_details :: json where
  "example_details =
     JObj [(''result'',
            JObj [(''uids'', JArr [JStr ''111'', JStr ''222'']),
                  (''111'', JObj [(''title'', JStr ''First''), (''pubdate'', JStr ''2020 Jan'')]),
                  (''222'', JObj [(''title'', JStr ''Second'')])])]"

definition example_http :: "request \<Rightarrow> response option" where
  "example_http r =
     (if url r = base_url then Some \<lparr>status_code = 200, json_body = Some example_search\<rparr>
      else Some \<lparr>status_code = 200, json_body = Some example_details\<rparr>)"

definition example_env :: env where
  "example_env = \<lparr>http = example_http, can_open = (\<lambda>f. True),
       encodable = (\<lambda>c. True), py_str = (\<lambda>v. [])\<rparr>"

definition world0 :: world where
  "world0 = \<lparr>sent = [], logger_level = WARNING, log_out = [], stdout = [], files = Map.empty\<rparr>"

text \<open>What is left of \<open>fetch_papers\<close> once the search gave a list of strings.\<close>

definition summary_stage :: "env \<Rightarrow> string list \<Rightarrow> world \<Rightarrow> (py_exception + paper list) \<times> world" where
  "summary_stage e ids w1 =
     (let w2 = w1\<lparr>sent := sent w1 @ [details_request ids]\<rparr>
      in case http e (details_request ids) of
           None \<Rightarrow> (Inl RequestException, w2)
         | Some resp \<Rightarrow>
             if is_error_status (status_code resp) then (Inl (HTTPError (status_code resp)), w2)
             else (case json_body resp of
                     None \<Rightarrow> (Inl JSONDecodeError, w2)
                   | Some dd \<Rightarrow>
                       if list_all (entry_ok dd) ids then (Inr (map (paper_record dd) ids), w2)
                       else (Inl AttributeError, w2)))"

definition example_papers :: "paper list" where
  "example_papers = map (paper_record example_details) [''111'', ''222'']"

text \<open>
  A server that answers the search with eleven identifiers.
\<close>

definition eleven_ids :: "string list" where
  "eleven_ids =
     [''38000101'', ''38000102'', ''38000103'', ''38000104'', ''38000105'', ''38000106'',
      ''38000107'', ''38000108'', ''38000109'', ''38000110'', ''38000111'']"

definition eleven_search :: json where
  "eleven_search = JObj [(''esearchresult'', JObj [(''idlist'', JArr (map JStr eleven_ids))])]"

definition eleven_details :: json where
  "eleven_details = JObj [(''result'', JObj [])]"

definition eleven_http :: "request \<Rightarrow> response option" where
  "eleven_http r =
     (if url r = base_url then Some \<lparr>status_code = 200, json_body = Some eleven_search\<rparr>
      else Some \<lparr>status_code = 200, json_body = Some eleven_details\<rparr>)"

definition eleven_env :: env where
  "eleven_env = \<lparr>http = eleven_http, can_open = (\<lambda>f. True),
       encodable = (\<lambda>c. True), py_str = (\<lambda>v. [])\<rparr>"

definition eleven_papers :: "paper list" where
  "eleven_papers = map (paper_record eleven_details) eleven_ids"

text \<open>
  A search response without identifiers on which line 28 does not raise: a JSON object
  whose \<open>esearchresult\<close> is missing, or is an object whose \<open>idlist\<close> is missing or is
  empty (false, for \<open>not ids\<close>). A body or an \<open>esearchresult\<close> that is no object is left
  out: there \<open>get\<close> raises.
\<close>

definition no_identifiers :: "json \<Rightarrow> bool" where
  "no_identifiers search_data =
     (case search_data of
        JObj kvs \<Rightarrow>
          (case map_of kvs ''esearchresult'' of
             None \<Rightarrow> True
           | Some sr \<Rightarrow>
               (case sr of
                  JObj skvs \<Rightarrow>
                    (case map_of skvs ''idlist'' of None \<Rightarrow> True | Some v \<Rightarrow> \<not> truthy v)
                | _ \<Rightarrow> False))
      | _ \<Rightarrow> False)"

text \<open>
  The world in which the \<open>try\<close> block starts: the level set by \<open>basicConfig\<close>, lowered
  to \<open>DEBUG\<close> by the debug switch.
\<close>

definition configured :: "args \<Rightarrow> world \<Rightarrow> world" where
  "configured a w = w\<lparr>logger_level := (if debug a then DEBUG else INFO)\<rparr>"

text \<open>
  The records the program logs.
\<close>

definition fetching_record :: "string \<Rightarrow> log_record" where
  "fetching_record q = (INFO, ''Fetching papers for query: %s'', LStr q)"

definition no_papers_record :: log_record where
  "no_papers_record = (INFO, ''No papers found for the given query.'', LNone)"

definition error_record :: "py_exception \<Rightarrow> log_record" where
  "error_record x = (ERROR, ''An error occurred: %s'', LExn x)"

text \<open>
  A search without matches, a server that answers with status 500, and no network.
\<close>

definition empty_search :: json where
  "empty_search = JObj [(''esearchresult'', JObj [(''count'', JStr ''0''), (''idlist'', JArr [])])]"

definition empty_env :: env where
  "empty_env = \<lparr>http = (\<lambda>r. Some \<lparr>status_code = 200, json_body = Some empty_search\<rparr>),
                 can_open = (\<lambda>f. True),
       encodable = (\<lambda>c. True), py_str = (\<lambda>v. [])\<rparr>"

definition failing_env :: env where
  "failing_env = \<lparr>http = (\<lambda>r. Some \<lparr>status_code = 500, json_body = None\<rparr>),
                   can_open = (\<lambda>f. True),
       encodable = (\<lambda>c. True), py_str = (\<lambda>v. [])\<rparr>"

definition offline_env :: env where
  "offline_env = \<lparr>http = (\<lambda>r. None), can_open = (\<lambda>f. True),
       encodable = (\<lambda>c. True), py_str = (\<lambda>v. [])\<rparr>"

text \<open>
  What a call computes and what it adds to the world, for the calls whose effect does
  not depend on the world they start in.
\<close>

definition fetch_pure :: "env \<Rightarrow> string \<Rightarrow> (py_exception + paper list) \<times> request list" where
  "fetch_pure e q = (fst (fetch_papers e q world0), sent (snd (fetch_papers e q world0)))"

definition rows_pure ::
  "env \<Rightarrow> string \<Rightarrow> paper list \<Rightarrow> (string \<Rightarrow> string option)
     \<Rightarrow> (py_exception + unit) \<times> (string \<Rightarrow> string option)" where
  "rows_pure e filename ps fs =
     (fst (writerows e filename ps (world0\<lparr>files := fs\<rparr>)),
      files (snd (writerows e filename ps (world0\<lparr>files := fs\<rparr>))))"

definition csv_pure ::
  "env \<Rightarrow> paper list \<Rightarrow> string \<Rightarrow> (string \<Rightarrow> string option)
     \<Rightarrow> (py_exception + unit) \<times> (string \<Rightarrow> string option)" where
  "csv_pure e ps filename fs =
     (fst (save_to_csv e ps filename (world0\<lparr>files := fs\<rparr>)),
      files (snd (save_to_csv e ps filename (world0\<lparr>files := fs\<rparr>))))"

text \<open>
  A search answered with \<open>{"esearchresult": null}\<close>: a response that holds no identifiers
  and has nothing at the path \<open>esearchresult.idlist\<close>.
\<close>

definition null_search :: json where
  "null_search = JObj [(''esearchresult'', JNull)]"

definition null_env :: env where
  "null_env = \<lparr>http = (\<lambda>r. Some \<lparr>status_code = 200, json_body = Some null_search\<rparr>),
                can_open = (\<lambda>f. True), encodable = (\<lambda>c. True), py_str = (\<lambda>v. [])\<rparr>"

definition null_outcome :: world where
  "null_outcome =
     world0\<lparr>sent := [search_request ''cancer''], logger_level := INFO,
            log_out := [fetching_record ''cancer'', error_record AttributeError]\<rparr>"

text \<open>
  The line that the writer makes of the texts of a row.
\<close>

definition row_text :: "string list \<Rightarrow> string" where
  "row_text ts =
     (if ts = [[]] then [quotechar, quotechar]
      else intercalate [delimiter] (map join_append ts)) @ lineterminator"

text \<open>
  The state of the reader after the written form of a field that started a field.
\<close>

definition after_field :: "string \<Rightarrow> parser_state" where
  "after_field f =
     (if needs_quote f then QUOTE_IN_QUOTED_FIELD else if f = [] then START_FIELD else IN_FIELD)"

text \<open>
  The values that \<open>_dict_to_list\<close> hands to the writer for a record.
\<close>

definition row_of :: "paper \<Rightarrow> json list" where
  "row_of p = map (\<lambda>k. case map_of p k of None \<Rightarrow> JStr [] | Some v \<Rightarrow> v) fieldnames"

text \<open>
  The header as it stands in the file.
\<close>

definition header_line :: string where
  "header_line =
     ''PubmedID,Title,Publication Date,Non-academic Author(s),Company Affiliation(s),Corresponding Author Email''
     @ [CR, LF]"

text \<open>
  A field as a literal string, in the words of the specification and apart from the
  writer: a \<open>str\<close> is its own text, any other object the text \<open>str()\<close> gives for it.
  The six literal strings of a record are those of its fields in the order of the table.
\<close>

definition literal_text :: "(json \<Rightarrow> string) \<Rightarrow> json \<Rightarrow> string" where
  "literal_text str_of v = (case v of JStr s \<Rightarrow> s | _ \<Rightarrow> str_of v)"

definition literal_fields :: "(json \<Rightarrow> string) \<Rightarrow> paper \<Rightarrow> string list" where
  "literal_fields str_of p =
     map (\<lambda>k. case map_of p k of None \<Rightarrow> [] | Some v \<Rightarrow> literal_text str_of v) fieldnames"

text \<open>
  A record with the six field names as its keys, none of its fields \<open>None\<close>.
\<close>

definition is_paper_record :: "paper \<Rightarrow> bool" where
  "is_paper_record p =
     (list_all (\<lambda>k. k \<in> set fieldnames) (map fst p)
      \<and> list_all (\<lambda>k. case map_of p k of None \<Rightarrow> False | Some v \<Rightarrow> v \<noteq> JNull) fieldnames)"

text \<open>
  A text that the file can take and the reader can give back as one field: every
  character is one the encoding has, and there are no more of them than the field limit.
\<close>

definition fits :: "env \<Rightarrow> string \<Rightarrow> bool" where
  "fits e t = (list_all (encodable e) t \<and> length t \<le> field_limit)"

text \<open>
  The examples of the round trip: the ASCII encoding, \<open>str()\<close> on the one number of the
  examples, a record whose title has a comma, quotes and a line break in it and whose date
  is a number, the file written for it, and a record whose title has a character that
  ASCII lacks.
\<close>

definition is_ascii :: "char \<Rightarrow> bool" where
  "is_ascii c = ((of_char c :: nat) < 128)"

definition example_str :: "json \<Rightarrow> string" where
  "example_str v = (if v = JInt 2020 then ''2020'' else ''None'')"

definition ascii_env :: env where
  "ascii_env = \<lparr>http = example_http, can_open = (\<lambda>f. True),
       encodable = is_ascii, py_str = example_str\<rparr>"

definition tricky_title :: string where
  "tricky_title = ''Cells, '' @ [quotechar] @ ''in vitro'' @ [quotechar, CR, LF] @ ''a study''"

definition tricky_paper :: paper where
  "tricky_paper =
     [(''PubmedID'', JStr ''111''),
      (''Title'', JStr tricky_title),
      (''Publication Date'', JInt 2020),
      (''Non-academic Author(s)'', JStr ''Heuristic not implemented''),
      (''Company Affiliation(s)'', JStr ''Heuristic not implemented''),
      (''Corresponding Author Email'', JStr ''Not available'')]"

definition tricky_fields :: "string list" where
  "tricky_fields =
     [''111'', tricky_title, ''2020'', ''Heuristic not implemented'',
      ''Heuristic not implemented'', ''Not available'']"

definition tricky_content :: string where
  "tricky_content = header_line @ row_text tricky_fields"

definition accent_paper :: paper where
  "accent_paper =
     [(''PubmedID'', JStr ''222''),
      (''Title'', JStr (''Caf'' @ [CHR 0xE9])),
      (''Publication Date'', JStr ''2021''),
      (''Non-academic Author(s)'', JStr ''Heuristic not implemented''),
      (''Company Affiliation(s)'', JStr ''Heuristic not implemented''),
      (''Corresponding Author Email'', JStr ''Not available'')]"

section \<open>Properties of fetch_papers\<close>

lemma py_get_dict: "is_dict obj \<Longrightarrow> py_get obj k d = Inr (get_or obj k d)"
  by (cases obj) (simp_all add: get_or_def)

lemma py_get_not_dict: "\<not> is_dict obj \<Longrightarrow> py_get obj k d = Inl AttributeError"
  by (cases obj) simp_all

lemma paper_of_eq:
  "paper_of dd i = (if entry_ok dd i then Inr (paper_record dd i) else Inl AttributeError)"
  by (cases "is_dict dd"; cases "is_dict (get_or dd ''result'' (JObj []))";
      cases "is_dict (summary_at dd i)")
     (simp_all add: paper_of_def entry_ok_def paper_record_def summary_at_def
        py_get_dict py_get_not_dict)

lemma papers_loop_eq:
  "papers_loop dd ids acc =
     (if list_all (entry_ok dd) ids then Inr (acc @ map (paper_record dd) ids)
      else Inl AttributeError)"
  by (induction ids arbitrary: acc) (simp_all add: paper_of_eq)

lemma the_strs_map_JStr: "the_strs (map JStr ids) = Inr ids"
  by (induction ids) simp_all

lemma str_join_strs: "str_join sep (JArr (map JStr ids)) = Inr (intercalate sep ids, ids)"
  by (simp add: str_join_def the_strs_map_JStr)

lemma fetch_papers_Inr:
  assumes "fst (fetch_papers e q w) = Inr papers"
  shows "papers = [] \<or> (\<exists>dd ids. papers = map (paper_record dd) ids)"
  using assms
  by (auto simp: fetch_papers_def requests_get_def Let_def papers_loop_eq
      split: sum.splits option.splits if_splits prod.splits)

lemma idlist_ofD:
  assumes "idlist_of sd = Some v"
  obtains kvs sr where "sd = JObj kvs" "map_of kvs ''esearchresult'' = Some (JObj sr)"
    "map_of sr ''idlist'' = Some v"
proof -
  from assms obtain kvs where sd: "sd = JObj kvs"
    by (cases sd) (simp_all add: idlist_of_def)
  with assms obtain x where x: "map_of kvs ''esearchresult'' = Some x" "lookup x ''idlist'' = Some v"
    by (auto simp: idlist_of_def split: option.splits)
  then obtain sr where "x = JObj sr" by (cases x) simp_all
  with sd x that show thesis by simp
qed

lemma raise_for_status_eq:
  "raise_for_status resp =
     (if is_error_status (status_code resp) then Inl (HTTPError (status_code resp)) else Inr ())"
  by (simp add: raise_for_status_def is_error_status_def)

lemma truthy_strs: "truthy (JArr (map JStr ids)) = (ids \<noteq> [])"
  by simp

lemma fetch_papers_search_ok:
  assumes a: "answered e (search_request q) sd"
    and i: "idlist_of sd = Some (JArr (map JStr ids))"
  shows "fetch_papers e q w =
     (if ids = [] then (Inr [], w\<lparr>sent := sent w @ [search_request q]\<rparr>)
      else summary_stage e ids (w\<lparr>sent := sent w @ [search_request q]\<rparr>))"
proof -
  from a obtain resp where r: "http e \<lparr>url = base_url, params = search_params q\<rparr> = Some resp"
    "\<not> is_error_status (status_code resp)" "json_body resp = Some sd"
    by (auto simp: answered_def search_request_def split: option.splits)
  from i obtain kvs sr where s: "sd = JObj kvs" "map_of kvs ''esearchresult'' = Some (JObj sr)"
    "map_of sr ''idlist'' = Some (JArr (map JStr ids))"
    by (rule idlist_ofD)
  show ?thesis
    using r s
    by (simp add: fetch_papers_def requests_get_def raise_for_status_eq response_json_def
        str_join_strs summary_stage_def Let_def search_request_def details_request_def
        papers_loop_eq split: option.splits)
qed

lemma summary_stage_Inr:
  "fst (summary_stage e ids w1) = Inr papers \<Longrightarrow>
     \<exists>dd. answered e (details_request ids) dd \<and> list_all (entry_ok dd) ids
        \<and> papers = map (paper_record dd) ids"
  by (auto simp: summary_stage_def answered_def Let_def split: option.splits if_splits)

lemma summary_stage_ok:
  "answered e (details_request ids) dd \<Longrightarrow> list_all (entry_ok dd) ids \<Longrightarrow>
     summary_stage e ids w1 =
       (Inr (map (paper_record dd) ids), w1\<lparr>sent := sent w1 @ [details_request ids]\<rparr>)"
  by (auto simp: summary_stage_def answered_def Let_def split: option.splits if_splits)

text \<open>
  Claim C1. When the search response yields a list of N identifiers, every sequence that
  \<open>fetch_papers\<close> returns has exactly N records, and the record at each position carries
  the identifier of that position as its PubmedID. A sequence is returned whenever the
  list is empty, or the summary request is answered without an error status by a JSON
  object in which \<open>result\<close> and the entries looked up are mappings where present.
\<close>

theorem fetch_papers_one_record_per_identifier:
  assumes "answered e (search_request q) search_data"
    and "idlist_of search_data = Some (JArr (map JStr ids))"
  shows "(\<forall>papers. fst (fetch_papers e q w) = Inr papers \<longrightarrow>
            length papers = length ids \<and>
            (\<forall>i < length ids. map_of (papers ! i) ''PubmedID'' = Some (JStr (ids ! i))))
       \<and> ((ids = [] \<or> (\<exists>dd. answered e (details_request ids) dd \<and> list_all (entry_ok dd) ids))
            \<longrightarrow> (\<exists>papers. fst (fetch_papers e q w) = Inr papers))"
proof (intro conjI allI impI)
  fix papers
  assume r: "fst (fetch_papers e q w) = Inr papers"
  show "length papers = length ids"
  proof (cases "ids = []")
    case True
    with r assms show ?thesis by (simp add: fetch_papers_search_ok)
  next
    case False
    with r assms have "fst (summary_stage e ids (w\<lparr>sent := sent w @ [search_request q]\<rparr>)) = Inr papers"
      by (simp add: fetch_papers_search_ok)
    then show ?thesis by (auto dest: summary_stage_Inr)
  qed
next
  fix papers i
  assume r: "fst (fetch_papers e q w) = Inr papers" and i: "i < length ids"
  then have "ids \<noteq> []" by auto
  with r assms have "fst (summary_stage e ids (w\<lparr>sent := sent w @ [search_request q]\<rparr>)) = Inr papers"
    by (simp add: fetch_papers_search_ok)
  then obtain dd where "papers = map (paper_record dd) ids"
    by (auto dest: summary_stage_Inr)
  with i show "map_of (papers ! i) ''PubmedID'' = Some (JStr (ids ! i))"
    by (simp add: paper_record_def)
next
  assume "ids = [] \<or> (\<exists>dd. answered e (details_request ids) dd \<and> list_all (entry_ok dd) ids)"
  then show "\<exists>papers. fst (fetch_papers e q w) = Inr papers"
    using assms by (auto simp: fetch_papers_search_ok summary_stage_ok)
qed

lemma example_answered_search: "answered example_env (search_request q) example_search"
  by (simp add: answered_def example_env_def example_http_def search_request_def is_error_status_def)

lemma example_answered_details: "answered example_env (details_request ids) example_details"
  by (simp add: answered_def example_env_def example_http_def details_request_def is_error_status_def
      base_url_def details_url_def)

lemma example_idlist: "idlist_of example_search = Some (JArr (map JStr [''111'', ''222'']))"
  by (simp add: idlist_of_def example_search_def)

lemma example_entries: "list_all (entry_ok example_details) [''111'', ''222'']"
  by (simp add: entry_ok_def example_details_def get_or_def summary_at_def)

theorem fetch_papers_one_record_per_identifier_witness:
  "answered example_env (search_request ''cancer'') example_search
   \<and> idlist_of example_search = Some (JArr (map JStr [''111'', ''222'']))
   \<and> (\<exists>papers. fst (fetch_papers example_env ''cancer'' world0) = Inr papers
        \<and> length papers = 2
        \<and> map_of (papers ! 0) ''PubmedID'' = Some (JStr ''111'')
        \<and> map_of (papers ! 1) ''PubmedID'' = Some (JStr ''222''))"
proof -
  note h = fetch_papers_one_record_per_identifier
    [OF example_answered_search example_idlist, of "''cancer''" world0]
  have ok: "\<exists>dd. answered example_env (details_request [''111'', ''222'']) dd
      \<and> list_all (entry_ok dd) [''111'', ''222'']"
    using example_answered_details example_entries by blast
  with h obtain papers where p: "fst (fetch_papers example_env ''cancer'' world0) = Inr papers"
    by blast
  with h have "length papers = 2"
    and "\<forall>i<2. map_of (papers ! i) ''PubmedID'' = Some (JStr ([''111'', ''222''] ! i))"
    by simp_all
  then have "map_of (papers ! 0) ''PubmedID'' = Some (JStr ''111'')"
    and "map_of (papers ! 1) ''PubmedID'' = Some (JStr ''222'')"
    and "length papers = 2"
    by (simp_all add: nth_Cons')
  with p example_answered_search example_idlist show ?thesis by blast
qed

lemma example_fetch:
  "fetch_papers example_env q world0 =
     (Inr example_papers, world0\<lparr>sent := [search_request q, details_request [''111'', ''222'']]\<rparr>)"
  using fetch_papers_search_ok [OF example_answered_search example_idlist, of q world0]
    summary_stage_ok [OF example_answered_details example_entries]
  by (simp add: example_papers_def world0_def)

text \<open>
  Claim C3. For every query, every answer of the network and every world: each record of
  a sequence that \<open>fetch_papers\<close> returns holds the same three placeholder strings in
  Non-academic Author(s), Company Affiliation(s) and Corresponding Author Email.
\<close>

theorem placeholder_fields_are_constant:
  assumes "fst (fetch_papers e q w) = Inr papers" and "p \<in> set papers"
  shows "map_of p ''Non-academic Author(s)'' = Some (JStr ''Heuristic not implemented'')
       \<and> map_of p ''Company Affiliation(s)'' = Some (JStr ''Heuristic not implemented'')
       \<and> map_of p ''Corresponding Author Email'' = Some (JStr ''Not available'')"
proof -
  from assms obtain dd i where "p = paper_record dd i"
    by (auto dest!: fetch_papers_Inr)
  then show ?thesis by (simp add: paper_record_def)
qed

theorem placeholder_fields_are_constant_witness:
  "fst (fetch_papers example_env ''cancer'' world0) = Inr example_papers
   \<and> hd example_papers \<in> set example_papers
   \<and> map_of (hd example_papers) ''Non-academic Author(s)'' = Some (JStr ''Heuristic not implemented'')
   \<and> map_of (hd example_papers) ''Company Affiliation(s)'' = Some (JStr ''Heuristic not implemented'')
   \<and> map_of (hd example_papers) ''Corresponding Author Email'' = Some (JStr ''Not available'')"
proof -
  have a: "fst (fetch_papers example_env ''cancer'' world0) = Inr example_papers"
    by (simp add: example_fetch)
  have b: "hd example_papers \<in> set example_papers"
    by (simp add: example_papers_def)
  from placeholder_fields_are_constant [OF a b] a b show ?thesis by blast
qed

lemma fieldnames_distinct: "distinct fieldnames \<and> length fieldnames = 6"
  by (simp add: fieldnames_def)

lemma dict_to_list_paper_record:
  "dict_to_list (paper_record dd i) = Inr (map snd (paper_record dd i))"
  by (simp add: dict_to_list_def paper_record_def fieldnames_def)

text \<open>
  Claim C10. Every record that \<open>fetch_papers\<close> returns has exactly the six keys PubmedID,
  Title, Publication Date, Non-academic Author(s), Company Affiliation(s), Corresponding
  Author Email, each once and in this order; they are the field names of \<open>save_to_csv\<close>,
  so the \<open>DictWriter\<close> takes the record and writes its six values.
\<close>

theorem paper_record_has_the_six_keys:
  assumes "fst (fetch_papers e q w) = Inr papers" and "p \<in> set papers"
  shows "map fst p = fieldnames \<and> distinct (map fst p) \<and> length p = 6
       \<and> dict_to_list p = Inr (map snd p)"
proof -
  from assms obtain dd i where p: "p = paper_record dd i"
    by (auto dest!: fetch_papers_Inr)
  have "map fst (paper_record dd i) = fieldnames"
    by (simp add: paper_record_def fieldnames_def)
  moreover have "length (paper_record dd i) = 6"
    by (simp add: paper_record_def)
  ultimately show ?thesis
    using p fieldnames_distinct dict_to_list_paper_record by simp
qed

theorem paper_record_has_the_six_keys_witness:
  "fst (fetch_papers example_env ''cancer'' world0) = Inr example_papers
   \<and> last example_papers \<in> set example_papers
   \<and> map fst (last example_papers) = fieldnames
   \<and> distinct (map fst (last example_papers)) \<and> length (last example_papers) = 6
   \<and> dict_to_list (last example_papers) = Inr (map snd (last example_papers))"
proof -
  have a: "fst (fetch_papers example_env ''cancer'' world0) = Inr example_papers"
    by (simp add: example_fetch)
  have b: "last example_papers \<in> set example_papers"
    by (simp add: example_papers_def)
  from paper_record_has_the_six_keys [OF a b] a b show ?thesis by blast
qed

text \<open>
  Claim C4. For every identifier of the search result list, the record at its position
  has as Title the \<open>title\<close> and as Publication Date the \<open>pubdate\<close> of the object at
  \<open>result.<id>\<close> of the summary response, where a missing \<open>result\<close> or \<open>result.<id>\<close>
  counts as an empty mapping and a missing \<open>title\<close> or \<open>pubdate\<close> as the empty string.
  The records are returned whenever the objects looked up are mappings.
\<close>

theorem title_and_date_from_summary:
  assumes "answered e (search_request q) search_data"
    and "idlist_of search_data = Some (JArr (map JStr ids))"
    and "answered e (details_request ids) details_data"
  shows "(\<forall>papers. fst (fetch_papers e q w) = Inr papers \<longrightarrow>
           (\<forall>i < length ids.
              map_of (papers ! i) ''Title''
                = Some (get_or (summary_at details_data (ids ! i)) ''title'' (JStr []))
            \<and> map_of (papers ! i) ''Publication Date''
                = Some (get_or (summary_at details_data (ids ! i)) ''pubdate'' (JStr []))))
       \<and> (list_all (entry_ok details_data) ids \<longrightarrow> (\<exists>papers. fst (fetch_papers e q w) = Inr papers))"
proof (intro conjI allI impI)
  fix papers i
  assume r: "fst (fetch_papers e q w) = Inr papers" and i: "i < length ids"
  then have "ids \<noteq> []" by auto
  with r assms have "fst (summary_stage e ids (w\<lparr>sent := sent w @ [search_request q]\<rparr>)) = Inr papers"
    by (simp add: fetch_papers_search_ok)
  then obtain dd where dd: "answered e (details_request ids) dd" "papers = map (paper_record dd) ids"
    by (auto dest: summary_stage_Inr)
  from dd(1) assms(3) have "dd = details_data"
    by (auto simp: answered_def split: option.splits)
  with dd i show "map_of (papers ! i) ''Title''
      = Some (get_or (summary_at details_data (ids ! i)) ''title'' (JStr []))"
    and "map_of (papers ! i) ''Publication Date''
      = Some (get_or (summary_at details_data (ids ! i)) ''pubdate'' (JStr []))"
    by (simp_all add: paper_record_def)
next
  assume "list_all (entry_ok details_data) ids"
  with assms show "\<exists>papers. fst (fetch_papers e q w) = Inr papers"
    by (auto simp: fetch_papers_search_ok summary_stage_ok)
qed

theorem title_and_date_from_summary_witness:
  "answered example_env (search_request ''cancer'') example_search
   \<and> idlist_of example_search = Some (JArr (map JStr [''111'', ''222'']))
   \<and> answered example_env (details_request [''111'', ''222'']) example_details
   \<and> list_all (entry_ok example_details) [''111'', ''222'']
   \<and> fst (fetch_papers example_env ''cancer'' world0) = Inr example_papers
   \<and> map_of (example_papers ! 0) ''Title'' = Some (JStr ''First'')
   \<and> map_of (example_papers ! 0) ''Publication Date'' = Some (JStr ''2020 Jan'')
   \<and> map_of (example_papers ! 1) ''Title'' = Some (JStr ''Second'')
   \<and> map_of (example_papers ! 1) ''Publication Date'' = Some (JStr [])"
proof -
  note h = title_and_date_from_summary
    [OF example_answered_search example_idlist example_answered_details, of "''cancer''" world0]
  have p: "fst (fetch_papers example_env ''cancer'' world0) = Inr example_papers"
    by (simp add: example_fetch)
  with h have "\<forall>i<2.
      map_of (example_papers ! i) ''Title''
        = Some (get_or (summary_at example_details ([''111'', ''222''] ! i)) ''title'' (JStr []))
    \<and> map_of (example_papers ! i) ''Publication Date''
        = Some (get_or (summary_at example_details ([''111'', ''222''] ! i)) ''pubdate'' (JStr []))"
    by simp
  then have "map_of (example_papers ! 0) ''Title'' = Some (JStr ''First'')"
    and "map_of (example_papers ! 0) ''Publication Date'' = Some (JStr ''2020 Jan'')"
    and "map_of (example_papers ! 1) ''Title'' = Some (JStr ''Second'')"
    and "map_of (example_papers ! 1) ''Publication Date'' = Some (JStr [])"
    by (simp_all add: nth_Cons' get_or_def summary_at_def example_details_def)
  with p example_answered_search example_idlist example_answered_details example_entries
  show ?thesis by blast
qed

lemma eleven_answered_search: "answered eleven_env (search_request q) eleven_search"
  by (simp add: answered_def eleven_env_def eleven_http_def search_request_def is_error_status_def)

lemma eleven_answered_details: "answered eleven_env (details_request ids) eleven_details"
  by (simp add: answered_def eleven_env_def eleven_http_def details_request_def is_error_status_def
      base_url_def details_url_def)

lemma eleven_idlist: "idlist_of eleven_search = Some (JArr (map JStr eleven_ids))"
  by (simp add: idlist_of_def eleven_search_def)

lemma eleven_entries: "list_all (entry_ok eleven_details) ids"
  by (induction ids) (simp_all add: entry_ok_def eleven_details_def get_or_def summary_at_def)

lemma eleven_fetch: "fst (fetch_papers eleven_env q world0) = Inr eleven_papers"
proof -
  have "eleven_ids \<noteq> []" by (simp add: eleven_ids_def)
  then show ?thesis
    using fetch_papers_search_ok [OF eleven_answered_search eleven_idlist, of q world0]
      summary_stage_ok [OF eleven_answered_details eleven_entries]
    by (simp add: eleven_papers_def)
qed

text \<open>
  Claim C8 as stated fails: a search response that lists eleven identifiers yields eleven
  records.
\<close>

theorem eleven_records_counterexample:
  "fst (fetch_papers eleven_env ''cancer'' world0) = Inr eleven_papers
   \<and> length eleven_papers = 11 \<and> \<not> length eleven_papers \<le> 10"
proof -
  have "length eleven_papers = 11"
    by (simp add: eleven_papers_def eleven_ids_def)
  with eleven_fetch [of "''cancer''"] show ?thesis by simp
qed

lemma summary_stage_sent:
  "\<exists>rest. sent (snd (summary_stage e ids w1)) = sent w1 @ rest"
  by (auto simp: summary_stage_def Let_def split: option.splits)

lemma fetch_papers_sent:
  "\<exists>rest. sent (snd (fetch_papers e q w)) = sent w @ search_request q # rest"
  by (auto simp: fetch_papers_def requests_get_def Let_def search_request_def
      split: sum.splits option.splits if_splits prod.splits)

text \<open>
  Claim C8, amended. The search request carries \<open>retmax\<close> = 10, and the sequence
  \<open>fetch_papers\<close> returns has as many records as the search response lists identifiers:
  at most ten whenever the response lists at most ten.
\<close>

theorem retmax_requested_not_enforced:
  assumes "answered e (search_request q) search_data"
    and "idlist_of search_data = Some (JArr (map JStr ids))"
    and "fst (fetch_papers e q w) = Inr papers"
  shows "sent (snd (fetch_papers e q w)) ! length (sent w) = search_request q
       \<and> map_of (params (search_request q)) ''retmax'' = Some (JInt 10)
       \<and> length papers = length ids
       \<and> (length ids \<le> 10 \<longrightarrow> length papers \<le> 10)"
proof -
  obtain rest where "sent (snd (fetch_papers e q w)) = sent w @ search_request q # rest"
    using fetch_papers_sent by blast
  then have 1: "sent (snd (fetch_papers e q w)) ! length (sent w) = search_request q"
    by simp
  have 2: "map_of (params (search_request q)) ''retmax'' = Some (JInt 10)"
    by (simp add: search_request_def search_params_def)
  have 3: "length papers = length ids"
  proof (cases "ids = []")
    case True
    with assms show ?thesis by (simp add: fetch_papers_search_ok)
  next
    case False
    with assms have "fst (summary_stage e ids (w\<lparr>sent := sent w @ [search_request q]\<rparr>)) = Inr papers"
      by (simp add: fetch_papers_search_ok)
    then show ?thesis by (auto dest: summary_stage_Inr)
  qed
  from 1 2 3 show ?thesis by simp
qed

theorem retmax_requested_not_enforced_witness:
  "answered example_env (search_request ''cancer'') example_search
   \<and> idlist_of example_search = Some (JArr (map JStr [''111'', ''222'']))
   \<and> fst (fetch_papers example_env ''cancer'' world0) = Inr example_papers
   \<and> sent (snd (fetch_papers example_env ''cancer'' world0)) ! length (sent world0)
       = search_request ''cancer''
   \<and> map_of (params (search_request ''cancer'')) ''retmax'' = Some (JInt 10)
   \<and> length example_papers = 2 \<and> length example_papers \<le> 10"
proof -
  have p: "fst (fetch_papers example_env ''cancer'' world0) = Inr example_papers"
    by (simp add: example_fetch)
  from retmax_requested_not_enforced [OF example_answered_search example_idlist p]
    example_answered_search example_idlist p
  show ?thesis by simp
qed

section \<open>Properties of main\<close>

lemma logger_log_emits:
  "level_no (logger_level w) \<le> level_no lvl \<Longrightarrow>
     logger_log lvl msg arg w = w\<lparr>log_out := log_out w @ [(lvl, msg, arg)]\<rparr>"
  by (simp add: logger_log_def)

lemma configured_level: "level_no (logger_level (configured a w)) \<le> 20"
  by (simp add: configured_def)

lemma fetch_papers_no_identifiers:
  assumes "answered e (search_request q) sd" and "no_identifiers sd"
  shows "fetch_papers e q w = (Inr [], w\<lparr>sent := sent w @ [search_request q]\<rparr>)"
proof -
  from assms(1) obtain resp where r: "http e \<lparr>url = base_url, params = search_params q\<rparr> = Some resp"
    "\<not> is_error_status (status_code resp)" "json_body resp = Some sd"
    by (auto simp: answered_def search_request_def split: option.splits)
  from assms(2) obtain kvs where sd: "sd = JObj kvs"
    by (cases sd) (simp_all add: no_identifiers_def)
  have "\<exists>sr ids. py_get sd ''esearchresult'' (JObj []) = Inr sr
      \<and> py_get sr ''idlist'' (JArr []) = Inr ids \<and> \<not> truthy ids"
    using assms(2) sd
    by (auto simp: no_identifiers_def split: option.splits json.splits)
  then obtain sr ids where "py_get sd ''esearchresult'' (JObj []) = Inr sr"
    "py_get sr ''idlist'' (JArr []) = Inr ids" "\<not> truthy ids"
    by blast
  with r show ?thesis
    by (simp add: fetch_papers_def requests_get_def raise_for_status_eq response_json_def
        search_request_def Let_def)
qed

lemma main_args_eq:
  "main_args e a (w\<lparr>logger_level := INFO\<rparr>) =
     (case main_try e a (configured a w) of
        (Inl x, w1) \<Rightarrow> if is_Exception x then (Inr (), logger_log ERROR ''An error occurred: %s'' (LExn x) w1)
                       else (Inl x, w1)
      | (Inr u, w1) \<Rightarrow> (Inr (), w1))"
  by (simp add: main_args_def configured_def Let_def)

lemma program_parsed:
  "parse_args argv = Some (Inr a) \<Longrightarrow>
     program e argv w =
       Some (exit_status (fst (main_args e a (w\<lparr>logger_level := INFO\<rparr>))),
             snd (main_args e a (w\<lparr>logger_level := INFO\<rparr>)))"
  by (simp add: program_def main_def split: prod.splits)

text \<open>
  Claim C2, amended. When the search response is a JSON object whose \<open>esearchresult\<close> is
  missing, or is an object whose \<open>idlist\<close> is missing or empty, \<open>fetch_papers\<close> returns
  the empty sequence after the search request alone; the run logs the two informational
  records, the second being "No papers found for the given query.", prints nothing,
  leaves every file as it was and ends with status 0.
\<close>

theorem no_identifiers_no_sink:
  assumes "parse_args argv = Some (Inr a)"
    and "answered e (search_request (query a)) search_data"
    and "no_identifiers search_data"
  shows "fetch_papers e (query a) w = (Inr [], w\<lparr>sent := sent w @ [search_request (query a)]\<rparr>)
       \<and> (\<exists>w'. program e argv w = Some (0, w')
             \<and> sent w' = sent w @ [search_request (query a)]
             \<and> log_out w' = log_out w @ [fetching_record (query a), no_papers_record]
             \<and> stdout w' = stdout w \<and> files w' = files w)"
proof -
  let ?w0 = "logger_log INFO ''Fetching papers for query: %s'' (LStr (query a)) (configured a w)"
  have w0: "?w0 = (configured a w)\<lparr>log_out := log_out w @ [fetching_record (query a)]\<rparr>"
    by (simp add: logger_log_def configured_def fetching_record_def)
  have "main_try e a (configured a w) =
      (Inr (), (configured a w)\<lparr>sent := sent w @ [search_request (query a)],
         log_out := log_out w @ [fetching_record (query a), no_papers_record]\<rparr>)"
    unfolding main_try_def Let_def w0
    by (simp add: fetch_papers_no_identifiers [OF assms(2,3)] logger_log_def configured_def
        no_papers_record_def)
  then show ?thesis
    using assms(1) fetch_papers_no_identifiers [OF assms(2,3)]
    by (simp add: program_parsed main_args_eq configured_def)
qed

lemma parse_cancer:
  "parse_args [''cancer''] = Some (Inr \<lparr>query = ''cancer'', file = None, debug = False\<rparr>)"
  by (simp add: parse_args_def in_fragment_def is_positional_def is_help_def is_debug_def
      is_file_def)

lemma parse_cancer_debug:
  "parse_args [''cancer'', ''-d''] = Some (Inr \<lparr>query = ''cancer'', file = None, debug = True\<rparr>)"
  by (simp add: parse_args_def in_fragment_def is_positional_def is_help_def is_debug_def
      is_file_def option_strings_def)

lemma parse_nothing: "parse_args [] = Some (Inl (SystemExit 2))"
  by (simp add: parse_args_def)

theorem no_identifiers_no_sink_witness:
  "parse_args [''cancer''] = Some (Inr \<lparr>query = ''cancer'', file = None, debug = False\<rparr>)
   \<and> answered empty_env (search_request ''cancer'') empty_search
   \<and> no_identifiers empty_search
   \<and> fetch_papers empty_env ''cancer'' world0
        = (Inr [], world0\<lparr>sent := sent world0 @ [search_request ''cancer'']\<rparr>)
   \<and> (\<exists>w'. program empty_env [''cancer''] world0 = Some (0, w')
         \<and> sent w' = sent world0 @ [search_request ''cancer'']
         \<and> log_out w' = log_out world0 @ [fetching_record ''cancer'', no_papers_record]
         \<and> stdout w' = stdout world0 \<and> files w' = files world0)"
proof -
  have a: "answered empty_env (search_request ''cancer'') empty_search"
    by (simp add: answered_def empty_env_def is_error_status_def)
  have n: "no_identifiers empty_search"
    by (simp add: no_identifiers_def empty_search_def)
  from no_identifiers_no_sink [OF parse_cancer _ n, of empty_env world0] a n parse_cancer
  show ?thesis by simp
qed

lemma fetch_papers_error_status:
  assumes "http e (search_request q) = Some resp" and "is_error_status (status_code resp)"
  shows "fetch_papers e q w
       = (Inl (HTTPError (status_code resp)), w\<lparr>sent := sent w @ [search_request q]\<rparr>)"
  using assms
  by (simp add: fetch_papers_def requests_get_def raise_for_status_eq search_request_def Let_def)

text \<open>
  Claim C2 as stated fails: a response whose \<open>esearchresult\<close> is \<open>null\<close> has no
  identifiers and nothing at \<open>esearchresult.idlist\<close>, yet line 28 calls \<open>get\<close> on
  \<open>None\<close>; \<open>fetch_papers\<close> raises and the run logs the error, not "No papers found".
\<close>

theorem null_esearchresult_counterexample:
  "answered null_env (search_request ''cancer'') null_search
   \<and> idlist_of null_search = None
   \<and> fetch_papers null_env ''cancer'' world0
       = (Inl AttributeError, world0\<lparr>sent := [search_request ''cancer'']\<rparr>)
   \<and> program null_env [''cancer''] world0 = Some (0, null_outcome)"
proof -
  have a: "answered null_env (search_request ''cancer'') null_search"
    by (simp add: answered_def null_env_def is_error_status_def)
  have i: "idlist_of null_search = None"
    by (simp add: idlist_of_def null_search_def)
  have f: "fetch_papers null_env q w = (Inl AttributeError, w\<lparr>sent := sent w @ [search_request q]\<rparr>)"
    for q w
    by (simp add: fetch_papers_def requests_get_def raise_for_status_def response_json_def
        null_env_def null_search_def search_request_def Let_def)
  have "main_try null_env \<lparr>query = ''cancer'', file = None, debug = False\<rparr>
          (world0\<lparr>logger_level := INFO\<rparr>)
      = (Inl AttributeError,
         world0\<lparr>logger_level := INFO, log_out := [fetching_record ''cancer''],
                sent := [search_request ''cancer'']\<rparr>)"
    by (simp add: main_try_def Let_def f logger_log_def fetching_record_def world0_def)
  then have "program null_env [''cancer''] world0 = Some (0, null_outcome)"
    by (simp add: program_def main_def parse_cancer main_args_def Let_def logger_log_def
        error_record_def null_outcome_def world0_def)
  with a i f [of "''cancer''" world0] show ?thesis
    by (simp add: world0_def)
qed

text \<open>
  Claim C7. When the search request is answered with an error status (400 to 599, what
  \<open>raise_for_status\<close> raises for), the run logs the error with the exception as its
  argument, sends no further request, prints nothing, leaves every file as it was, and
  ends with status 0.
\<close>

theorem search_failure_writes_nothing:
  assumes "parse_args argv = Some (Inr a)"
    and "http e (search_request (query a)) = Some resp"
    and "is_error_status (status_code resp)"
  shows "\<exists>w'. program e argv w = Some (0, w')
           \<and> files w' = files w \<and> stdout w' = stdout w
           \<and> sent w' = sent w @ [search_request (query a)]
           \<and> log_out w' = log_out w @ [fetching_record (query a),
                                        error_record (HTTPError (status_code resp))]"
proof -
  let ?w0 = "logger_log INFO ''Fetching papers for query: %s'' (LStr (query a)) (configured a w)"
  have w0: "?w0 = (configured a w)\<lparr>log_out := log_out w @ [fetching_record (query a)]\<rparr>"
    by (simp add: logger_log_def configured_def fetching_record_def)
  have "main_try e a (configured a w) =
      (Inl (HTTPError (status_code resp)),
       (configured a w)\<lparr>sent := sent w @ [search_request (query a)],
         log_out := log_out w @ [fetching_record (query a)]\<rparr>)"
    unfolding main_try_def Let_def w0
    by (simp add: fetch_papers_error_status [OF assms(2,3)] configured_def)
  then show ?thesis
    using assms(1)
    by (simp add: program_parsed main_args_eq configured_def logger_log_def error_record_def)
qed

theorem search_failure_writes_nothing_witness:
  "parse_args [''cancer''] = Some (Inr \<lparr>query = ''cancer'', file = None, debug = False\<rparr>)
   \<and> http failing_env (search_request ''cancer'') = Some \<lparr>status_code = 500, json_body = None\<rparr>
   \<and> is_error_status 500
   \<and> (\<exists>w'. program failing_env [''cancer''] world0 = Some (0, w')
         \<and> files w' = files world0 \<and> stdout w' = stdout world0
         \<and> sent w' = sent world0 @ [search_request ''cancer'']
         \<and> log_out w' = log_out world0 @ [fetching_record ''cancer'', error_record (HTTPError 500)])"
proof -
  have h: "http failing_env (search_request ''cancer'') = Some \<lparr>status_code = 500, json_body = None\<rparr>"
    by (simp add: failing_env_def)
  have s: "is_error_status (status_code \<lparr>status_code = 500, json_body = None\<rparr>)"
    by (simp add: is_error_status_def)
  from search_failure_writes_nothing
      [of "[''cancer'']" "\<lparr>query = ''cancer'', file = None, debug = False\<rparr>" failing_env
          "\<lparr>status_code = 500, json_body = None\<rparr>" world0]
    h s parse_cancer
  show ?thesis by simp
qed

lemma py_get_Inl: "py_get obj k d = Inl x \<Longrightarrow> x = AttributeError"
  by (cases obj) simp_all

lemma py_iter_Inl: "py_iter obj = Inl x \<Longrightarrow> x = TypeError"
  by (cases obj) simp_all

lemma the_strs_Inl: "the_strs xs = Inl x \<Longrightarrow> x = TypeError"
  by (induction xs rule: the_strs.induct) (auto split: sum.splits)

lemma str_join_Inl: "str_join sep obj = Inl x \<Longrightarrow> x = TypeError"
  by (auto simp: str_join_def split: sum.splits dest: py_iter_Inl the_strs_Inl)

lemma fetch_papers_pure:
  "fetch_papers e q w = (fst (fetch_pure e q), w\<lparr>sent := sent w @ snd (fetch_pure e q)\<rparr>)"
  by (simp add: fetch_pure_def fetch_papers_def requests_get_def Let_def world0_def
      split: sum.splits option.splits prod.splits)

lemma fetch_pure_Inl: "fst (fetch_pure e q) = Inl x \<Longrightarrow> is_Exception x"
  by (auto simp: fetch_pure_def fetch_papers_def requests_get_def Let_def raise_for_status_eq
      response_json_def papers_loop_eq
      split: sum.splits option.splits prod.splits if_splits
      dest!: py_get_Inl str_join_Inl)

lemma print_papers_eq: "print_papers ps w = w\<lparr>stdout := stdout w @ ps\<rparr>"
  by (induction ps arbitrary: w) simp_all

lemma files_fwrite:
  "files (fwrite f s w) = (files w)(f \<mapsto> (case files w f of None \<Rightarrow> [] | Some c \<Rightarrow> c) @ s)"
  by (simp add: fwrite_def)

lemma fwrite_eq: "fwrite f s w = w\<lparr>files := files (fwrite f s w)\<rparr>"
  by (simp add: fwrite_def)

lemma file_write_eq:
  "file_write e f s w =
     (if list_all (encodable e) s then (Inr (), fwrite f s w) else (Inl UnicodeEncodeError, w))"
  by (simp add: file_write_def)

lemma world_files_same: "w\<lparr>files := files w\<rparr> = w"
  by (cases w) simp

lemma writerows_pure:
  "writerows e f ps w = (fst (rows_pure e f ps (files w)), w\<lparr>files := snd (rows_pure e f ps (files w))\<rparr>)"
proof (induction ps arbitrary: w)
  case Nil
  show ?case by (simp add: rows_pure_def world_files_same)
next
  case (Cons p ps)
  show ?case
  proof (cases "dict_to_list p")
    case (Inl x)
    then show ?thesis by (simp add: rows_pure_def world_files_same)
  next
    case (Inr row)
    let ?line = "csv_writerow (py_str e) row"
    show ?thesis
    proof (cases "list_all (encodable e) ?line")
      case False
      with Inr show ?thesis
        by (simp add: rows_pure_def file_write_eq world_files_same)
    next
      case True
      have "writerows e f (p # ps) w = writerows e f ps (fwrite f ?line w)"
        using Inr True by (simp add: file_write_eq)
      also have "\<dots> = (fst (rows_pure e f ps (files (fwrite f ?line w))),
          (fwrite f ?line w)\<lparr>files := snd (rows_pure e f ps (files (fwrite f ?line w)))\<rparr>)"
        by (rule Cons.IH)
      also have "rows_pure e f ps (files (fwrite f ?line w)) = rows_pure e f (p # ps) (files w)"
        using Inr True by (simp add: rows_pure_def file_write_eq files_fwrite fwrite_def)
      finally show ?thesis by (simp add: fwrite_def)
    qed
  qed
qed

lemma writerows_Inl: "fst (writerows e f ps w) = Inl x \<Longrightarrow> x = ValueError \<or> x = UnicodeEncodeError"
proof (induction ps arbitrary: w)
  case Nil
  then show ?case by simp
next
  case (Cons p ps)
  show ?case
  proof (cases "dict_to_list p")
    case (Inl y)
    with Cons.prems show ?thesis
      by (simp add: dict_to_list_def split: if_splits)
  next
    case (Inr row)
    show ?thesis
    proof (cases "list_all (encodable e) (csv_writerow (py_str e) row)")
      case False
      with Inr Cons.prems show ?thesis by (simp add: file_write_eq)
    next
      case True
      with Inr Cons.prems
      have "fst (writerows e f ps (fwrite f (csv_writerow (py_str e) row) w)) = Inl x"
        by (simp add: file_write_eq)
      then show ?thesis by (rule Cons.IH)
    qed
  qed
qed

lemma rows_pure_Inl: "fst (rows_pure e f ps fs) = Inl x \<Longrightarrow> is_Exception x"
  by (auto simp: rows_pure_def dest!: writerows_Inl)

lemma save_to_csv_pure:
  "save_to_csv e ps f w = (fst (csv_pure e ps f (files w)), w\<lparr>files := snd (csv_pure e ps f (files w))\<rparr>)"
  by (simp add: csv_pure_def save_to_csv_def Let_def writerows_pure file_write_eq files_fwrite
      fwrite_def world_files_same)

lemma csv_pure_Inl: "fst (csv_pure e ps f fs) = Inl x \<Longrightarrow> is_Exception x"
  by (auto simp: csv_pure_def save_to_csv_def Let_def writerows_pure file_write_eq
      split: if_splits dest!: rows_pure_Inl)

lemma main_try_level:
  "level_no l \<le> 20 \<Longrightarrow>
     main_try e a (w\<lparr>logger_level := l\<rparr>) =
       (fst (main_try e a (w\<lparr>logger_level := INFO\<rparr>)),
        (snd (main_try e a (w\<lparr>logger_level := INFO\<rparr>)))\<lparr>logger_level := l\<rparr>)"
  by (simp add: main_try_def Let_def logger_log_def fetch_papers_pure save_to_csv_pure
      print_papers_eq split: sum.splits option.splits prod.splits)

lemma main_try_Inl: "fst (main_try e a w) = Inl x \<Longrightarrow> is_Exception x"
  by (auto simp: main_try_def Let_def fetch_papers_pure save_to_csv_pure
      split: sum.splits option.splits prod.splits if_splits
      dest: fetch_pure_Inl csv_pure_Inl)

lemma main_try_keeps_level: "logger_level (snd (main_try e a w)) = logger_level w"
  by (simp add: main_try_def Let_def logger_log_def fetch_papers_pure save_to_csv_pure
      print_papers_eq split: sum.splits option.splits prod.splits)

text \<open>
  Claim C6 as stated fails: \<open>parse_args\<close> runs before the \<open>try\<close> block, and a command
  line without the query ends the process with status 2.
\<close>

theorem usage_error_exit_status_counterexample:
  "program example_env [] world0 = Some (2, world0\<lparr>logger_level := INFO\<rparr>)"
  by (simp add: program_def main_def parse_nothing)

text \<open>
  Claim C6, amended. For every command line that the parser accepts, the run ends with
  status 0; and whatever the \<open>try\<close> block raises derives from \<open>Exception\<close>, is caught
  by the handler and is logged as an error with the exception as the argument of the
  message.
\<close>

theorem handler_catches_every_exception:
  assumes "parse_args argv = Some (Inr a)"
  shows "\<exists>w'. program e argv w = Some (0, w')
           \<and> (\<forall>x w1. main_try e a (configured a w) = (Inl x, w1) \<longrightarrow>
                 is_Exception x \<and> w' = w1\<lparr>log_out := log_out w1 @ [error_record x]\<rparr>)"
proof (cases "main_try e a (configured a w)")
  case (Pair r w1)
  have lvl: "level_no (logger_level w1) \<le> 20"
    using main_try_keeps_level [of e a "configured a w"] Pair configured_level [of a w] by simp
  show ?thesis
  proof (cases r)
    case (Inl x)
    with Pair have ex: "is_Exception x"
      using main_try_Inl [of e a "configured a w" x] by simp
    have "logger_log ERROR ''An error occurred: %s'' (LExn x) w1
        = w1\<lparr>log_out := log_out w1 @ [error_record x]\<rparr>"
      using lvl by (simp add: logger_log_def error_record_def)
    with Pair Inl ex assms show ?thesis
      by (simp add: program_parsed main_args_eq)
  next
    case (Inr u)
    with Pair assms show ?thesis
      by (simp add: program_parsed main_args_eq)
  qed
qed

theorem handler_catches_every_exception_witness:
  "parse_args [''cancer''] = Some (Inr \<lparr>query = ''cancer'', file = None, debug = False\<rparr>)
   \<and> fst (main_try offline_env \<lparr>query = ''cancer'', file = None, debug = False\<rparr>
            (configured \<lparr>query = ''cancer'', file = None, debug = False\<rparr> world0))
       = Inl RequestException
   \<and> is_Exception RequestException
   \<and> (\<exists>w'. program offline_env [''cancer''] world0 = Some (0, w')
         \<and> log_out w' = [fetching_record ''cancer'', error_record RequestException])"
proof -
  let ?a = "\<lparr>query = ''cancer'', file = None, debug = False\<rparr>"
  obtain w1 where m: "main_try offline_env ?a (configured ?a world0) = (Inl RequestException, w1)"
    and l: "log_out w1 = [fetching_record ''cancer'']"
    by (simp add: main_try_def Let_def logger_log_def configured_def fetch_papers_def
        requests_get_def offline_env_def world0_def fetching_record_def)
  from handler_catches_every_exception [OF parse_cancer, of offline_env world0]
  obtain w' where p: "program offline_env [''cancer''] world0 = Some (0, w')"
    and h: "\<forall>x w1. main_try offline_env ?a (configured ?a world0) = (Inl x, w1) \<longrightarrow>
                 is_Exception x \<and> w' = w1\<lparr>log_out := log_out w1 @ [error_record x]\<rparr>"
    by blast
  from h m have "is_Exception RequestException"
    and "w' = w1\<lparr>log_out := log_out w1 @ [error_record RequestException]\<rparr>"
    by blast+
  with l p m parse_cancer show ?thesis by simp
qed

lemma main_args_debug:
  "main_args e a (w\<lparr>logger_level := INFO\<rparr>) =
     (fst (main_args e (a\<lparr>debug := False\<rparr>) (w\<lparr>logger_level := INFO\<rparr>)),
      (snd (main_args e (a\<lparr>debug := False\<rparr>) (w\<lparr>logger_level := INFO\<rparr>)))
        \<lparr>logger_level := (if debug a then DEBUG else INFO)\<rparr>)"
proof -
  obtain r w1 where m: "main_try e a (w\<lparr>logger_level := INFO\<rparr>) = (r, w1)"
    by (cases "main_try e a (w\<lparr>logger_level := INFO\<rparr>)")
  have t: "main_try e (a\<lparr>debug := False\<rparr>) w' = main_try e a w'" for w'
    by (simp add: main_try_def Let_def split: prod.splits sum.splits)
  have l: "logger_level w1 = INFO"
    using main_try_keeps_level [of e a "w\<lparr>logger_level := INFO\<rparr>"] m by simp
  then have w1: "w1\<lparr>logger_level := INFO\<rparr> = w1"
    by (cases w1) simp
  have d: "main_try e a (w\<lparr>logger_level := DEBUG\<rparr>) = (r, w1\<lparr>logger_level := DEBUG\<rparr>)"
    using main_try_level [of DEBUG e a w] m by simp
  show ?thesis
  proof (cases r)
    case (Inl x)
    with m d l w1 show ?thesis
      by (cases "debug a") (simp_all add: main_args_def Let_def t logger_log_def)
  next
    case (Inr u)
    with m d l w1 show ?thesis
      by (cases "debug a") (simp_all add: main_args_def Let_def t)
  qed
qed

text \<open>
  Claim C9. Two runs whose command lines give the same query and the same output path,
  whatever their debug switches, on the same network and the same start: the sequences
  \<open>fetch_papers\<close> returns are equal, and so are the exit status, the files, the printed
  records, the requests sent and the records logged.
\<close>

theorem debug_flag_changes_only_verbosity:
  assumes "parse_args argv1 = Some (Inr a1)" and "parse_args argv2 = Some (Inr a2)"
    and "query a1 = query a2" and "file a1 = file a2"
  shows "fst (fetch_papers e (query a1) w1) = fst (fetch_papers e (query a2) w2)
       \<and> (\<exists>c v1 v2. program e argv1 w = Some (c, v1) \<and> program e argv2 w = Some (c, v2)
             \<and> files v1 = files v2 \<and> stdout v1 = stdout v2 \<and> sent v1 = sent v2
             \<and> log_out v1 = log_out v2)"
proof -
  from assms(3,4) have eq: "a1\<lparr>debug := False\<rparr> = a2\<lparr>debug := False\<rparr>"
    by (cases a1, cases a2) simp
  have "fst (fetch_papers e (query a1) w1) = fst (fetch_papers e (query a2) w2)"
    using assms(3) by (simp add: fetch_papers_pure)
  moreover have "\<exists>c v1 v2. program e argv1 w = Some (c, v1) \<and> program e argv2 w = Some (c, v2)
             \<and> files v1 = files v2 \<and> stdout v1 = stdout v2 \<and> sent v1 = sent v2
             \<and> log_out v1 = log_out v2"
    using assms(1,2) eq
    by (simp add: program_parsed main_args_debug [of e a1] main_args_debug [of e a2])
  ultimately show ?thesis by blast
qed

theorem debug_flag_changes_only_verbosity_witness:
  "parse_args [''cancer''] = Some (Inr \<lparr>query = ''cancer'', file = None, debug = False\<rparr>)
   \<and> parse_args [''cancer'', ''-d''] = Some (Inr \<lparr>query = ''cancer'', file = None, debug = True\<rparr>)
   \<and> fst (fetch_papers example_env ''cancer'' world0)
       = fst (fetch_papers example_env ''cancer'' (world0\<lparr>logger_level := DEBUG\<rparr>))
   \<and> (\<exists>c v1 v2. program example_env [''cancer''] world0 = Some (c, v1)
         \<and> program example_env [''cancer'', ''-d''] world0 = Some (c, v2)
         \<and> files v1 = files v2 \<and> stdout v1 = stdout v2 \<and> sent v1 = sent v2
         \<and> log_out v1 = log_out v2)"
proof -
  from debug_flag_changes_only_verbosity
    [of "[''cancer'']" "\<lparr>query = ''cancer'', file = None, debug = False\<rparr>"
        "[''cancer'', ''-d'']" "\<lparr>query = ''cancer'', file = None, debug = True\<rparr>"
        example_env world0 "world0\<lparr>logger_level := DEBUG\<rparr>" world0]
    parse_cancer parse_cancer_debug
  show ?thesis by simp
qed

section \<open>Properties of save_to_csv\<close>

lemma csv_writerow_row_text: "csv_writerow s row = row_text (map (csv_field_text s) row)"
  by (simp add: csv_writerow_def row_text_def Let_def)

lemma chars_distinct:
  "delimiter \<noteq> quotechar" "delimiter \<noteq> CR" "delimiter \<noteq> LF"
  "quotechar \<noteq> CR" "quotechar \<noteq> LF" "CR \<noteq> LF"
  "quotechar \<noteq> delimiter" "CR \<noteq> delimiter" "LF \<noteq> delimiter"
  "CR \<noteq> quotechar" "LF \<noteq> quotechar" "LF \<noteq> CR"
  by (simp_all add: delimiter_def quotechar_def CR_def LF_def)

lemma ends_line_plain: "c \<noteq> LF \<Longrightarrow> c \<noteq> CR \<Longrightarrow> rest \<noteq> [] \<Longrightarrow> \<not> ends_line c rest"
  by (simp add: ends_line_def)

lemma ends_line_CR_LF: "\<not> ends_line CR (LF # rest)"
  by (simp add: ends_line_def chars_distinct)

lemma ends_line_LF: "ends_line LF rest"
  by (simp add: ends_line_def)

lemma double_quotes_Nil: "double_quotes [] = []"
  by (simp add: double_quotes_def)

lemma double_quotes_quote: "double_quotes (quotechar # s) = quotechar # quotechar # double_quotes s"
  by (simp add: double_quotes_def)

lemma double_quotes_other: "c \<noteq> quotechar \<Longrightarrow> double_quotes (c # s) = c # double_quotes s"
  by (simp add: double_quotes_def)

lemma parse_add_char_ok:
  "length a < field_limit \<Longrightarrow>
     parse_add_char c \<lparr>pstate = st, cur_field = a, rec_fields = fs\<rparr>
       = Some \<lparr>pstate = st, cur_field = a @ [c], rec_fields = fs\<rparr>"
  by (simp add: parse_add_char_def)

lemma add_then_ok:
  "length a < field_limit \<Longrightarrow>
     add_then c st' \<lparr>pstate = st, cur_field = a, rec_fields = fs\<rparr>
       = Some \<lparr>pstate = st', cur_field = a @ [c], rec_fields = fs\<rparr>"
  by (simp add: add_then_def parse_add_char_ok)

lemma parse_add_char_full:
  "field_limit \<le> length a \<Longrightarrow>
     parse_add_char c \<lparr>pstate = st, cur_field = a, rec_fields = fs\<rparr> = None"
  by (simp add: parse_add_char_def)

text \<open>The body of a quoted field.\<close>

lemma quoted_body:
  "reader_loop \<lparr>pstate = IN_QUOTED_FIELD, cur_field = acc, rec_fields = fs\<rparr>
       (double_quotes s @ rest) recs
   = reader_loop \<lparr>pstate = IN_QUOTED_FIELD, cur_field = acc @ s, rec_fields = fs\<rparr> rest recs"
  if "rest \<noteq> []" and "length acc + length s \<le> field_limit"
  using that(2)
proof (induction s arbitrary: acc)
  case Nil
  show ?case by (simp add: double_quotes_Nil)
next
  case (Cons c s)
  have ne: "double_quotes s @ rest \<noteq> []" using that(1) by simp
  from Cons.prems have l: "length acc < field_limit"
    and l': "length (acc @ [c]) + length s \<le> field_limit"
    by simp_all
  show ?case
  proof (cases "c = quotechar")
    case True
    have 1: "\<not> ends_line quotechar (quotechar # double_quotes s @ rest)"
      by (simp add: ends_line_def chars_distinct)
    have 2: "\<not> ends_line quotechar (double_quotes s @ rest)"
      using ne by (simp add: ends_line_def chars_distinct)
    show ?thesis
      using Cons.IH [OF l'] True 1 2 l
      by (simp add: double_quotes_quote add_then_ok)
  next
    case False
    show ?thesis
      using Cons.IH [OF l'] False l
      by (simp add: double_quotes_other parse_add_char_ok)
  qed
qed

text \<open>The body of a field written without quotes.\<close>

lemma plain_body:
  "reader_loop \<lparr>pstate = IN_FIELD, cur_field = acc, rec_fields = fs\<rparr> (s @ rest) recs
   = reader_loop \<lparr>pstate = IN_FIELD, cur_field = acc @ s, rec_fields = fs\<rparr> rest recs"
  if "rest \<noteq> []" and "\<not> needs_quote s" and "length acc + length s \<le> field_limit"
  using that(2,3)
proof (induction s arbitrary: acc)
  case Nil
  show ?case by simp
next
  case (Cons c s)
  from Cons.prems have c: "c \<noteq> delimiter" "c \<noteq> quotechar" "c \<noteq> CR" "c \<noteq> LF"
    and s: "\<not> needs_quote s"
    by (simp_all add: needs_quote_def)
  from Cons.prems have l: "length acc < field_limit"
    and l': "length (acc @ [c]) + length s \<le> field_limit"
    by simp_all
  have "\<not> ends_line c (s @ rest)"
    using c that(1) by (simp add: ends_line_plain)
  then show ?case
    using Cons.IH [OF s l'] c l
    by (simp add: parse_add_char_ok is_newline_def)
qed

text \<open>A field written without quotes that is longer than the limit.\<close>

lemma plain_body_too_long:
  "reader_loop \<lparr>pstate = IN_FIELD, cur_field = acc, rec_fields = fs\<rparr> (s @ rest) recs = None"
  if "rest \<noteq> []" and "\<not> needs_quote s" and "length acc \<le> field_limit"
    and "field_limit < length acc + length s"
  using that(2,3,4)
proof (induction s arbitrary: acc)
  case Nil
  then show ?case by simp
next
  case (Cons c s)
  from Cons.prems have c: "c \<noteq> delimiter" "c \<noteq> quotechar" "c \<noteq> CR" "c \<noteq> LF"
    and s: "\<not> needs_quote s"
    by (simp_all add: needs_quote_def)
  have e: "\<not> ends_line c (s @ rest)"
    using c that(1) by (simp add: ends_line_plain)
  show ?case
  proof (cases "length acc < field_limit")
    case True
    then have "length (acc @ [c]) \<le> field_limit" by simp
    moreover from Cons.prems have "field_limit < length (acc @ [c]) + length s" by simp
    ultimately have "reader_loop \<lparr>pstate = IN_FIELD, cur_field = acc @ [c], rec_fields = fs\<rparr>
        (s @ rest) recs = None"
      using s by (intro Cons.IH)
    then show ?thesis
      using c e True by (simp add: parse_add_char_ok is_newline_def)
  next
    case False
    then have "field_limit \<le> length acc" by simp
    then show ?thesis
      using c by (simp add: parse_add_char_full is_newline_def)
  qed
qed

lemma field_body:
  assumes "rest \<noteq> []" and "length f \<le> field_limit"
  shows "reader_loop \<lparr>pstate = START_FIELD, cur_field = [], rec_fields = fs\<rparr>
           (join_append f @ rest) recs
       = reader_loop \<lparr>pstate = after_field f, cur_field = f, rec_fields = fs\<rparr> rest recs"
proof (cases "needs_quote f")
  case True
  have 1: "\<not> ends_line quotechar (double_quotes f @ quotechar # rest)"
    by (simp add: ends_line_def chars_distinct)
  have 2: "\<not> ends_line quotechar rest"
    using assms(1) by (simp add: ends_line_def chars_distinct)
  have "reader_loop \<lparr>pstate = START_FIELD, cur_field = [], rec_fields = fs\<rparr>
           (join_append f @ rest) recs
      = reader_loop \<lparr>pstate = IN_QUOTED_FIELD, cur_field = [], rec_fields = fs\<rparr>
           (double_quotes f @ quotechar # rest) recs"
    using True 1 by (simp add: join_append_def start_field_def is_newline_def chars_distinct)
  also have "\<dots> = reader_loop \<lparr>pstate = IN_QUOTED_FIELD, cur_field = f, rec_fields = fs\<rparr>
           (quotechar # rest) recs"
    using quoted_body [of "quotechar # rest" "[]" f fs recs] assms(2) by simp
  also have "\<dots> = reader_loop \<lparr>pstate = QUOTE_IN_QUOTED_FIELD, cur_field = f, rec_fields = fs\<rparr>
           rest recs"
    using 2 by simp
  finally show ?thesis using True by (simp add: after_field_def)
next
  case False
  show ?thesis
  proof (cases f)
    case Nil
    then show ?thesis using False by (simp add: join_append_def after_field_def)
  next
    case (Cons c cs)
    with False have c: "c \<noteq> delimiter" "c \<noteq> quotechar" "c \<noteq> CR" "c \<noteq> LF"
      and cs: "\<not> needs_quote cs"
      by (simp_all add: needs_quote_def)
    have e: "\<not> ends_line c (cs @ rest)"
      using c assms(1) by (simp add: ends_line_plain)
    have l0: "length ([]::string) < field_limit"
      by (simp add: field_limit_def)
    have l: "length [c] + length cs \<le> field_limit"
      using assms(2) Cons by simp
    have "reader_loop \<lparr>pstate = START_FIELD, cur_field = [], rec_fields = fs\<rparr>
           (join_append f @ rest) recs
        = reader_loop \<lparr>pstate = IN_FIELD, cur_field = [c], rec_fields = fs\<rparr> (cs @ rest) recs"
      using False Cons c e add_then_ok [OF l0, of c IN_FIELD START_FIELD fs]
      by (simp add: join_append_def start_field_def is_newline_def)
    also have "\<dots> = reader_loop \<lparr>pstate = IN_FIELD, cur_field = [c] @ cs, rec_fields = fs\<rparr> rest recs"
      by (rule plain_body [OF assms(1) cs l])
    finally show ?thesis using False Cons by (simp add: after_field_def)
  qed
qed

lemma after_field_cases:
  "after_field f = QUOTE_IN_QUOTED_FIELD \<or> after_field f = START_FIELD \<and> f = []
   \<or> after_field f = IN_FIELD"
  by (simp add: after_field_def)

lemma term_delimiter:
  assumes "rest \<noteq> []"
  shows "reader_loop \<lparr>pstate = after_field f, cur_field = f, rec_fields = fs\<rparr>
           (delimiter # rest) recs
       = reader_loop \<lparr>pstate = START_FIELD, cur_field = [], rec_fields = fs @ [f]\<rparr> rest recs"
proof -
  have e: "\<not> ends_line delimiter rest"
    using assms by (simp add: ends_line_def chars_distinct)
  consider "after_field f = QUOTE_IN_QUOTED_FIELD" | "after_field f = START_FIELD" "f = []"
    | "after_field f = IN_FIELD"
    using after_field_cases [of f] by blast
  then show ?thesis
  proof cases
    case 1
    with e show ?thesis
      by (simp add: is_newline_def parse_save_field_def chars_distinct)
  next
    case 2
    with e show ?thesis
      by (simp add: start_field_def is_newline_def parse_save_field_def chars_distinct)
  next
    case 3
    with e show ?thesis
      by (simp add: is_newline_def parse_save_field_def chars_distinct)
  qed
qed

lemma term_newline:
  "reader_loop \<lparr>pstate = after_field f, cur_field = f, rec_fields = fs\<rparr>
     (CR # LF # rest) recs
   = reader_loop parse_reset rest (recs @ [fs @ [f]])"
proof -
  consider "after_field f = QUOTE_IN_QUOTED_FIELD" | "after_field f = START_FIELD" "f = []"
    | "after_field f = IN_FIELD"
    using after_field_cases [of f] by blast
  then show ?thesis
  proof cases
    case 1
    then show ?thesis
      by (simp add: is_newline_def parse_save_field_def chars_distinct
          after_line_def ends_line_CR_LF ends_line_LF)
  next
    case 2
    then show ?thesis
      by (simp add: start_field_def is_newline_def parse_save_field_def chars_distinct
          after_line_def ends_line_CR_LF ends_line_LF)
  next
    case 3
    then show ?thesis
      by (simp add: is_newline_def parse_save_field_def chars_distinct
          after_line_def ends_line_CR_LF ends_line_LF)
  qed
qed

lemma field_then_delimiter:
  "rest \<noteq> [] \<Longrightarrow> length f \<le> field_limit \<Longrightarrow>
     reader_loop \<lparr>pstate = START_FIELD, cur_field = [], rec_fields = fs\<rparr>
       (join_append f @ delimiter # rest) recs
     = reader_loop \<lparr>pstate = START_FIELD, cur_field = [], rec_fields = fs @ [f]\<rparr> rest recs"
  using field_body [of "delimiter # rest" f fs recs] term_delimiter [of rest f fs recs]
  by (simp del: reader_loop.simps)

lemma field_then_newline:
  "length f \<le> field_limit \<Longrightarrow>
   reader_loop \<lparr>pstate = START_FIELD, cur_field = [], rec_fields = fs\<rparr>
     (join_append f @ CR # LF # rest) recs
   = reader_loop parse_reset rest (recs @ [fs @ [f]])"
  using field_body [of "CR # LF # rest" f fs recs] term_newline [of f fs rest recs]
  by (simp del: reader_loop.simps)

lemma fields_then_newline:
  "ts \<noteq> [] \<Longrightarrow> list_all (\<lambda>t. length t \<le> field_limit) ts \<Longrightarrow>
     reader_loop \<lparr>pstate = START_FIELD, cur_field = [], rec_fields = fs\<rparr>
       (intercalate [delimiter] (map join_append ts) @ CR # LF # rest) recs
     = reader_loop parse_reset rest (recs @ [fs @ ts])"
proof (induction ts arbitrary: fs)
  case Nil
  then show ?case by simp
next
  case (Cons f ts)
  from Cons.prems have lf: "length f \<le> field_limit"
    and lts: "list_all (\<lambda>t. length t \<le> field_limit) ts"
    by simp_all
  show ?case
  proof (cases ts)
    case Nil
    then show ?thesis using lf by (simp add: field_then_newline)
  next
    case (Cons g gs)
    have "reader_loop \<lparr>pstate = START_FIELD, cur_field = [], rec_fields = fs\<rparr>
       (join_append f @ delimiter # (intercalate [delimiter] (map join_append ts) @ CR # LF # rest)) recs
     = reader_loop \<lparr>pstate = START_FIELD, cur_field = [], rec_fields = fs @ [f]\<rparr>
       (intercalate [delimiter] (map join_append ts) @ CR # LF # rest) recs"
      using lf by (intro field_then_delimiter) simp_all
    also have "\<dots> = reader_loop parse_reset rest (recs @ [(fs @ [f]) @ ts])"
      using Cons lts by (intro Cons.IH) simp_all
    finally show ?thesis using Cons by simp
  qed
qed

lemma start_record_as_field:
  "c \<noteq> CR \<Longrightarrow> c \<noteq> LF \<Longrightarrow>
     reader_loop parse_reset (c # cs) recs
     = reader_loop \<lparr>pstate = START_FIELD, cur_field = [], rec_fields = []\<rparr> (c # cs) recs"
  by (simp add: parse_reset_def start_field_def is_newline_def parse_save_field_def
      add_then_def parse_add_char_def)

lemma join_append_head: "join_append f = c # cs \<Longrightarrow> c \<noteq> CR \<and> c \<noteq> LF"
  by (cases "needs_quote f"; cases f)
     (auto simp: join_append_def needs_quote_def chars_distinct)

lemma join_append_Nil: "join_append f = [] \<Longrightarrow> f = []"
  by (cases "needs_quote f") (auto simp: join_append_def)

lemma fields_head:
  assumes "ts \<noteq> []" and "ts \<noteq> [[]]"
  shows "\<exists>c cs. intercalate [delimiter] (map join_append ts) = c # cs \<and> c \<noteq> CR \<and> c \<noteq> LF"
proof (cases ts)
  case Nil
  with assms show ?thesis by simp
next
  case (Cons f more)
  show ?thesis
  proof (cases "join_append f")
    case Nil
    then have f: "f = []" by (rule join_append_Nil)
    with assms Cons obtain g gs where "more = g # gs" by (cases more) auto
    with Cons Nil show ?thesis by (simp add: chars_distinct)
  next
    case (Cons c cs)
    then have "c \<noteq> CR \<and> c \<noteq> LF" by (rule join_append_head)
    with Cons \<open>ts = f # more\<close> show ?thesis by (cases more) simp_all
  qed
qed

lemma row_read:
  assumes "list_all (\<lambda>t. length t \<le> field_limit) ts"
  shows "reader_loop parse_reset (row_text ts @ rest) recs
       = reader_loop parse_reset rest (recs @ [ts])"
proof -
  consider "ts = []" | "ts = [[]]" | "ts \<noteq> []" "ts \<noteq> [[]]" by blast
  then show ?thesis
  proof cases
    case 1
    then show ?thesis
      by (simp add: row_text_def lineterminator_def parse_reset_def is_newline_def
          ends_line_CR_LF ends_line_LF)
  next
    case 2
    have "\<not> ends_line quotechar (quotechar # CR # LF # rest)"
      and "\<not> ends_line quotechar (CR # LF # rest)"
      by (simp_all add: ends_line_def chars_distinct)
    with 2 show ?thesis
      by (simp add: row_text_def lineterminator_def parse_reset_def is_newline_def
          ends_line_CR_LF ends_line_LF start_field_def chars_distinct parse_save_field_def
          after_line_def)
  next
    case 3
    then obtain c cs where h: "intercalate [delimiter] (map join_append ts) = c # cs"
      "c \<noteq> CR" "c \<noteq> LF"
      using fields_head by blast
    have "reader_loop parse_reset (row_text ts @ rest) recs
        = reader_loop parse_reset (c # (cs @ CR # LF # rest)) recs"
      using 3 h(1) by (simp add: row_text_def lineterminator_def)
    also have "\<dots> = reader_loop \<lparr>pstate = START_FIELD, cur_field = [], rec_fields = []\<rparr>
        (c # (cs @ CR # LF # rest)) recs"
      using h(2,3) by (rule start_record_as_field)
    also have "\<dots> = reader_loop \<lparr>pstate = START_FIELD, cur_field = [], rec_fields = []\<rparr>
        (intercalate [delimiter] (map join_append ts) @ CR # LF # rest) recs"
      using h(1) by simp
    also have "\<dots> = reader_loop parse_reset rest (recs @ [[] @ ts])"
      using 3(1) assms by (rule fields_then_newline)
    finally show ?thesis by simp
  qed
qed

lemma rows_read:
  "list_all (list_all (\<lambda>t. length t \<le> field_limit)) rows \<Longrightarrow>
     reader_loop parse_reset (concat (map row_text rows)) recs = Some (recs @ rows)"
proof (induction rows arbitrary: recs)
  case Nil
  show ?case by (simp add: parse_reset_def)
next
  case (Cons ts rows)
  from Cons.prems have lt: "list_all (\<lambda>t. length t \<le> field_limit) ts"
    and lr: "list_all (list_all (\<lambda>t. length t \<le> field_limit)) rows"
    by simp_all
  have "reader_loop parse_reset (concat (map row_text (ts # rows))) recs
      = reader_loop parse_reset (row_text ts @ concat (map row_text rows)) recs"
    by simp
  also have "\<dots> = reader_loop parse_reset (concat (map row_text rows)) (recs @ [ts])"
    using lt by (rule row_read)
  also have "\<dots> = Some ((recs @ [ts]) @ rows)"
    using lr by (rule Cons.IH)
  finally show ?case by simp
qed

lemma csv_reader_rows:
  "list_all (list_all (\<lambda>t. length t \<le> field_limit)) rows \<Longrightarrow>
     csv_reader (concat (map row_text rows)) = Some rows"
  using rows_read [of rows "[]"] by (simp add: csv_reader_def)

lemma csv_field_text_literal: "v \<noteq> JNull \<Longrightarrow> csv_field_text s v = literal_text s v"
  by (cases v) (simp_all add: literal_text_def)

lemma paper_record_row:
  assumes "is_paper_record p"
  shows "dict_to_list p = Inr (row_of p)"
    and "map (csv_field_text s) (row_of p) = literal_fields s p"
proof -
  from assms have k: "\<forall>k \<in> set (map fst p). k \<in> set fieldnames"
    and v: "\<forall>k \<in> set fieldnames. case map_of p k of None \<Rightarrow> False | Some v \<Rightarrow> v \<noteq> JNull"
    by (simp_all add: is_paper_record_def list_all_iff)
  from k show "dict_to_list p = Inr (row_of p)"
    by (auto simp: dict_to_list_def row_of_def list_ex_iff)
  have "csv_field_text s (case map_of p k of None \<Rightarrow> JStr [] | Some v \<Rightarrow> v)
      = (case map_of p k of None \<Rightarrow> [] | Some v \<Rightarrow> literal_text s v)"
    if "k \<in> set fieldnames" for k
    using v that by (auto split: option.splits simp: csv_field_text_literal)
  then show "map (csv_field_text s) (row_of p) = literal_fields s p"
    by (simp add: row_of_def literal_fields_def)
qed

lemma set_double_quotes: "set (double_quotes t) \<subseteq> set t"
  by (auto simp: double_quotes_def split: if_splits)

lemma set_join_append: "set (join_append t) \<subseteq> insert quotechar (set t)"
  using set_double_quotes [of t] by (auto simp: join_append_def)

lemma set_intercalate: "set (intercalate sep xs) \<subseteq> set sep \<union> \<Union> (set ` set xs)"
  by (induction sep xs rule: intercalate.induct) auto

lemma set_row_text:
  "set (row_text ts) \<subseteq> {delimiter, quotechar, CR, LF} \<union> \<Union> (set ` set ts)"
proof -
  have "set (intercalate [delimiter] (map join_append ts))
      \<subseteq> {delimiter} \<union> \<Union> (set ` set (map join_append ts))"
    using set_intercalate [of "[delimiter]" "map join_append ts"] by simp
  also have "\<dots> \<subseteq> {delimiter, quotechar} \<union> \<Union> (set ` set ts)"
    using set_join_append by fastforce
  finally show ?thesis
    by (auto simp: row_text_def lineterminator_def)
qed

lemma syntax_in_header: "{delimiter, CR, LF} \<subseteq> set header_line"
  by (simp add: header_line_def delimiter_def)

lemma row_text_encodable:
  assumes "list_all (encodable e) (quotechar # header_line)"
    and "list_all (fits e) ts"
  shows "list_all (encodable e) (row_text ts)"
proof -
  from assms(1) have "\<forall>c \<in> {delimiter, quotechar, CR, LF}. encodable e c"
    using syntax_in_header by (auto simp: list_all_iff)
  moreover from assms(2) have "\<forall>c \<in> \<Union> (set ` set ts). encodable e c"
    by (auto simp: list_all_iff fits_def)
  ultimately show ?thesis
    using set_row_text [of ts] by (auto simp: list_all_iff)
qed

lemma writerows_ok:
  assumes "list_all (encodable e) (quotechar # header_line)"
    and "\<forall>p \<in> set ps. is_paper_record p \<and> list_all (fits e) (literal_fields (py_str e) p)"
    and "files w f = Some c"
  shows "writerows e f ps w
       = (Inr (), w\<lparr>files := (files w)
            (f \<mapsto> c @ concat (map row_text (map (literal_fields (py_str e)) ps)))\<rparr>)"
  using assms(2,3)
proof (induction ps arbitrary: w c)
  case Nil
  then show ?case by (cases w) (simp add: fun_upd_idem)
next
  case (Cons p ps)
  let ?line = "row_text (literal_fields (py_str e) p)"
  from Cons.prems have p: "is_paper_record p" and t: "list_all (fits e) (literal_fields (py_str e) p)"
    by simp_all
  have line: "csv_writerow (py_str e) (row_of p) = ?line"
    by (simp only: csv_writerow_row_text paper_record_row(2) [OF p])
  have enc: "list_all (encodable e) ?line"
    using assms(1) t by (rule row_text_encodable)
  let ?w = "fwrite f ?line w"
  have f: "files ?w f = Some (c @ ?line)"
    using Cons.prems(2) by (simp add: fwrite_def)
  have "writerows e f (p # ps) w = writerows e f ps ?w"
    using paper_record_row(1) [OF p] line enc by (simp add: file_write_eq)
  also have "\<dots> = (Inr (), ?w\<lparr>files := (files ?w)
      (f \<mapsto> (c @ ?line) @ concat (map row_text (map (literal_fields (py_str e)) ps)))\<rparr>)"
    using Cons.prems(1) f by (intro Cons.IH) simp_all
  also have "?w\<lparr>files := (files ?w)
      (f \<mapsto> (c @ ?line) @ concat (map row_text (map (literal_fields (py_str e)) ps)))\<rparr>
      = w\<lparr>files := (files w)
          (f \<mapsto> c @ concat (map row_text (map (literal_fields (py_str e)) (p # ps))))\<rparr>"
    by (simp add: fwrite_def)
  finally show ?case .
qed

lemma field_text_strs: "map (csv_field_text s) (map JStr xs) = xs"
  by (induction xs) simp_all

lemma header_row: "csv_writerow s (map JStr fieldnames) = row_text fieldnames"
  by (simp only: csv_writerow_row_text field_text_strs)

lemma header_text: "row_text fieldnames = header_line"
  by (simp add: row_text_def fieldnames_def header_line_def join_append_def needs_quote_def
      delimiter_def quotechar_def CR_def LF_def lineterminator_def)

lemma fieldnames_short: "list_all (\<lambda>t. length t \<le> field_limit) fieldnames"
  by (simp add: fieldnames_def field_limit_def)

lemma save_to_csv_ok:
  assumes "can_open e f"
    and "list_all (encodable e) (quotechar # header_line)"
    and "\<forall>p \<in> set ps. is_paper_record p \<and> list_all (fits e) (literal_fields (py_str e) p)"
  shows "save_to_csv e ps f w
       = (Inr (), w\<lparr>files := (files w)
            (f \<mapsto> header_line @ concat (map row_text (map (literal_fields (py_str e)) ps)))\<rparr>)"
proof -
  let ?w2 = "fwrite f header_line (w\<lparr>files := (files w)(f \<mapsto> [])\<rparr>)"
  have f: "files ?w2 f = Some header_line"
    by (simp add: fwrite_def)
  have h: "list_all (encodable e) header_line"
    using assms(2) by simp
  have "save_to_csv e ps f w = writerows e f ps ?w2"
    using assms(1) h by (simp add: save_to_csv_def Let_def file_write_eq header_row header_text)
  also have "\<dots> = (Inr (), ?w2\<lparr>files := (files ?w2)
      (f \<mapsto> header_line @ concat (map row_text (map (literal_fields (py_str e)) ps)))\<rparr>)"
    using assms(2,3) f by (rule writerows_ok)
  also have "?w2\<lparr>files := (files ?w2)
      (f \<mapsto> header_line @ concat (map row_text (map (literal_fields (py_str e)) ps)))\<rparr>
      = w\<lparr>files := (files w)
          (f \<mapsto> header_line @ concat (map row_text (map (literal_fields (py_str e)) ps)))\<rparr>"
    by (simp add: fwrite_def)
  finally show ?thesis .
qed

text \<open>
  Claim C5, amended. For every path that can be opened and every sequence of records
  with the six field names as keys, whose fields are not \<open>None\<close> and, as literal strings,
  have only characters of the file's encoding and at most 131072 of them:
  \<open>save_to_csv\<close> leaves in the file, whatever it held before, the header line with the
  six field names in the order of the table, then one row per record in the order of the
  sequence; and reading this text back with the \<open>csv\<close> reader gives the field names
  followed, record by record, by the six fields as literal strings.
\<close>

theorem save_to_csv_round_trip:
  assumes "can_open e filename"
    and "list_all (encodable e) (quotechar # header_line)"
    and "\<forall>p \<in> set papers.
           is_paper_record p \<and> list_all (fits e) (literal_fields (py_str e) p)"
  shows "\<exists>content.
           save_to_csv e papers filename w
             = (Inr (), w\<lparr>files := (files w)(filename \<mapsto> content)\<rparr>)
         \<and> content = header_line @ concat (map row_text (map (literal_fields (py_str e)) papers))
         \<and> csv_reader content = Some (fieldnames # map (literal_fields (py_str e)) papers)"
proof -
  let ?rows = "map (literal_fields (py_str e)) papers"
  let ?content = "header_line @ concat (map row_text ?rows)"
  have "list_all (list_all (\<lambda>t. length t \<le> field_limit)) ?rows"
    using assms(3) by (auto simp: list_all_iff fits_def)
  then have "list_all (list_all (\<lambda>t. length t \<le> field_limit)) (fieldnames # ?rows)"
    using fieldnames_short by simp
  then have "csv_reader (concat (map row_text (fieldnames # ?rows))) = Some (fieldnames # ?rows)"
    by (rule csv_reader_rows)
  then have "csv_reader ?content = Some (fieldnames # ?rows)"
    by (simp add: header_text)
  moreover have "save_to_csv e papers filename w
             = (Inr (), w\<lparr>files := (files w)(filename \<mapsto> ?content)\<rparr>)"
    using assms by (rule save_to_csv_ok)
  ultimately show ?thesis by blast
qed

lemma ascii_header: "list_all (encodable ascii_env) (quotechar # header_line)"
  by (simp add: ascii_env_def is_ascii_def header_line_def quotechar_def CR_def LF_def)

lemma tricky_literals: "literal_fields (py_str ascii_env) tricky_paper = tricky_fields"
  by (simp add: literal_fields_def literal_text_def tricky_paper_def tricky_fields_def
      fieldnames_def ascii_env_def example_str_def)

lemma tricky_is_record: "is_paper_record tricky_paper"
  by (simp add: is_paper_record_def tricky_paper_def fieldnames_def)

lemma tricky_fits: "list_all (fits ascii_env) tricky_fields"
  by (simp add: fits_def tricky_fields_def tricky_title_def ascii_env_def is_ascii_def
      field_limit_def quotechar_def CR_def LF_def)

theorem save_to_csv_round_trip_witness:
  "can_open ascii_env ''out.csv''
   \<and> list_all (encodable ascii_env) (quotechar # header_line)
   \<and> is_paper_record tricky_paper
   \<and> list_all (fits ascii_env) (literal_fields (py_str ascii_env) tricky_paper)
   \<and> save_to_csv ascii_env [tricky_paper] ''out.csv'' world0
        = (Inr (), world0\<lparr>files := (files world0)(''out.csv'' \<mapsto> tricky_content)\<rparr>)
   \<and> csv_reader tricky_content = Some [fieldnames, tricky_fields]"
proof -
  have c: "can_open ascii_env ''out.csv''"
    by (simp add: ascii_env_def)
  have r: "is_paper_record tricky_paper \<and> list_all (fits ascii_env) (literal_fields (py_str ascii_env) tricky_paper)"
    using tricky_is_record tricky_fits by (simp add: tricky_literals)
  then have "\<forall>p \<in> set [tricky_paper].
      is_paper_record p \<and> list_all (fits ascii_env) (literal_fields (py_str ascii_env) p)"
    by simp
  from save_to_csv_round_trip [OF c ascii_header this, of world0] c r ascii_header
  show ?thesis
    by (simp add: tricky_literals tricky_content_def)
qed

lemma accent_is_record: "is_paper_record accent_paper"
  by (simp add: is_paper_record_def accent_paper_def fieldnames_def)

lemma accent_row: "dict_to_list accent_paper = Inr (row_of accent_paper)"
  using accent_is_record by (rule paper_record_row(1))

lemma accent_line_not_encodable:
  "\<not> list_all (encodable ascii_env) (csv_writerow (py_str ascii_env) (row_of accent_paper))"
proof -
  have "CHR 0xE9 \<in> set (csv_writerow (py_str ascii_env) (row_of accent_paper))"
    by (simp add: csv_writerow_def row_of_def accent_paper_def fieldnames_def Let_def
        join_append_def needs_quote_def delimiter_def quotechar_def CR_def LF_def)
  moreover have "\<not> encodable ascii_env (CHR 0xE9)"
    by (simp add: ascii_env_def is_ascii_def)
  ultimately show ?thesis by (auto simp: list_all_iff)
qed

text \<open>
  Claim C5 as stated fails: for a record whose title has a character that the encoding
  of the file lacks, \<open>save_to_csv\<close> raises when it writes the row; the file is left with
  the header alone, and reading it back gives no record.
\<close>

theorem unencodable_title_counterexample:
  "can_open ascii_env ''out.csv''
   \<and> is_paper_record accent_paper
   \<and> save_to_csv ascii_env [accent_paper] ''out.csv'' world0
       = (Inl UnicodeEncodeError, world0\<lparr>files := (files world0)(''out.csv'' \<mapsto> header_line)\<rparr>)
   \<and> csv_reader header_line = Some [fieldnames]"
proof -
  have c: "can_open ascii_env ''out.csv''"
    by (simp add: ascii_env_def)
  have h: "list_all (encodable ascii_env) header_line"
    using ascii_header by simp
  have "save_to_csv ascii_env [accent_paper] ''out.csv'' world0
      = (Inl UnicodeEncodeError, world0\<lparr>files := (files world0)(''out.csv'' \<mapsto> header_line)\<rparr>)"
    using c h accent_row accent_line_not_encodable
    by (simp add: save_to_csv_def Let_def file_write_eq header_row header_text fwrite_def)
  moreover have "csv_reader header_line = Some [fieldnames]"
    using csv_reader_rows [of "[fieldnames]"] fieldnames_short by (simp add: header_text)
  ultimately show ?thesis using c accent_is_record by simp
qed

lemma needs_quote_replicate:
  "c \<noteq> delimiter \<Longrightarrow> c \<noteq> quotechar \<Longrightarrow> c \<noteq> CR \<Longrightarrow> c \<noteq> LF \<Longrightarrow> \<not> needs_quote (replicate n c)"
  by (auto simp: needs_quote_def list_ex_iff)

lemma long_field_rejected:
  assumes "field_limit < n"
  shows "csv_reader (row_text [replicate n (CHR ''a'')]) = None"
proof -
  let ?a = "CHR ''a''"
  have a: "?a \<noteq> delimiter" "?a \<noteq> quotechar" "?a \<noteq> CR" "?a \<noteq> LF"
    by (simp_all add: delimiter_def quotechar_def CR_def LF_def)
  from assms obtain m where n: "n = Suc m" by (cases n) auto
  have q: "\<not> needs_quote (replicate m ?a)" "\<not> needs_quote (replicate n ?a)"
    using a by (simp_all add: needs_quote_replicate)
  have tx: "row_text [replicate n ?a] = ?a # (replicate m ?a @ [CR, LF])"
    using q(2) n by (simp add: row_text_def join_append_def lineterminator_def)
  have l0: "length ([]::string) < field_limit"
    by (simp add: field_limit_def)
  have e: "\<not> ends_line ?a (replicate m ?a @ [CR, LF])"
    using a by (simp add: ends_line_plain)
  have "reader_loop parse_reset (?a # (replicate m ?a @ [CR, LF])) []
      = reader_loop \<lparr>pstate = START_FIELD, cur_field = [], rec_fields = []\<rparr>
          (?a # (replicate m ?a @ [CR, LF])) []"
    using a(3,4) by (rule start_record_as_field)
  also have "\<dots> = reader_loop \<lparr>pstate = IN_FIELD, cur_field = [?a], rec_fields = []\<rparr>
          (replicate m ?a @ [CR, LF]) []"
    using a e add_then_ok [OF l0, of ?a IN_FIELD START_FIELD "[]"]
    by (simp add: start_field_def is_newline_def)
  also have "\<dots> = None"
  proof (rule plain_body_too_long)
    show "[CR, LF] \<noteq> []" by simp
    show "\<not> needs_quote (replicate m ?a)" by (rule q(1))
    show "length [?a] \<le> field_limit" by (simp add: field_limit_def)
    show "field_limit < length [?a] + length (replicate m ?a)" using assms n by simp
  qed
  finally show ?thesis by (simp add: csv_reader_def tx)
qed

text \<open>
  The limit is met by the reader, not by the writer: a field of 131073 characters is
  written, and reading the line back is an error.
\<close>

theorem field_over_limit_is_rejected:
  "csv_reader (row_text [replicate 131073 (CHR ''a'')]) = None"
  by (rule long_field_rejected) (simp add: field_limit_def)

end
